theory Spec2Isabelle
  imports Complex_Main "HOL-Library.Word"
begin

unbundle bit_operations_syntax

section \<open>Strings and bytes of the JavaScript runtime\<close>

text \<open>
  A JavaScript string is a sequence of UTF-16 code units; \<open>===\<close> on strings is equality
  of these sequences. ASCII literals of the source are written \<open>js ''...''\<close>.
\<close>

type_synonym jsstring = "16 word list"

type_synonym bytes = "8 word list"

definition js :: "string \<Rightarrow> jsstring" where
  "js s = map of_char s"

text \<open>
  \<open>String.prototype.trim\<close> removes the code units of WhiteSpace and LineTerminator
  (ECMA-262) from both ends.
\<close>

definition is_ws :: "16 word \<Rightarrow> bool" where
  "is_ws c = (c \<in> set [0x09, 0x0A, 0x0B, 0x0C, 0x0D, 0x20, 0xA0, 0x1680,
      0x2000, 0x2001, 0x2002, 0x2003, 0x2004, 0x2005, 0x2006, 0x2007, 0x2008, 0x2009, 0x200A,
      0x2028, 0x2029, 0x202F, 0x205F, 0x3000, 0xFEFF])"

definition trim :: "jsstring \<Rightarrow> jsstring" where
  "trim s = rev (dropWhile is_ws (rev (dropWhile is_ws s)))"

text \<open>
  Truthiness of a value of type \<open>string | undefined\<close>: \<open>undefined\<close> and the empty
  string are falsy.
\<close>

definition truthy :: "jsstring option \<Rightarrow> bool" where
  "truthy t = (case t of None \<Rightarrow> False | Some s \<Rightarrow> s \<noteq> [])"

text \<open>
  \<open>new TextEncoder().encode(s)\<close>: the string is read as Unicode code points (a
  surrogate pair is one code point, a lone surrogate becomes U+FFFD) and each code point
  is written in UTF-8.
\<close>

definition is_lead_surrogate :: "16 word \<Rightarrow> bool" where
  "is_lead_surrogate c = (0xD800 \<le> c \<and> c \<le> 0xDBFF)"

definition is_trail_surrogate :: "16 word \<Rightarrow> bool" where
  "is_trail_surrogate c = (0xDC00 \<le> c \<and> c \<le> 0xDFFF)"

fun code_points :: "jsstring \<Rightarrow> nat list" where
  "code_points [] = []"
| "code_points [c] =
     (if is_lead_surrogate c \<or> is_trail_surrogate c then [0xFFFD] else [unat c])"
| "code_points (c # d # ds) =
     (if is_lead_surrogate c then
        (if is_trail_surrogate d
         then (0x10000 + (unat c - 0xD800) * 0x400 + (unat d - 0xDC00)) # code_points ds
         else 0xFFFD # code_points (d # ds))
      else if is_trail_surrogate c then 0xFFFD # code_points (d # ds)
      else unat c # code_points (d # ds))"

definition utf8_of_code_point :: "nat \<Rightarrow> bytes" where
  "utf8_of_code_point cp =
     (if cp < 0x80 then [of_nat cp]
      else if cp < 0x800 then [of_nat (0xC0 + cp div 0x40), of_nat (0x80 + cp mod 0x40)]
      else if cp < 0x10000 then
        [of_nat (0xE0 + cp div 0x1000), of_nat (0x80 + (cp div 0x40) mod 0x40),
         of_nat (0x80 + cp mod 0x40)]
      else
        [of_nat (0xF0 + cp div 0x40000), of_nat (0x80 + (cp div 0x1000) mod 0x40),
         of_nat (0x80 + (cp div 0x40) mod 0x40), of_nat (0x80 + cp mod 0x40)])"

definition TextEncoder_encode :: "jsstring \<Rightarrow> bytes" where
  "TextEncoder_encode s = concat (map utf8_of_code_point (code_points s))"

definition byteLength :: "bytes \<Rightarrow> nat" where
  "byteLength b = length b"

text \<open>
  \<open>b.toString(16).padStart(2, "0")\<close> for a byte \<open>b\<close>, and the \<open>map\<close>/\<open>join\<close> over
  a byte array that \<open>hashContent\<close> and \<open>sign\<close> share.
\<close>

definition hex_digit :: "nat \<Rightarrow> 16 word" where
  "hex_digit n = of_char (''0123456789abcdef'' ! (n mod 16))"

definition hex2 :: "8 word \<Rightarrow> jsstring" where
  "hex2 b = [hex_digit (unat b div 16), hex_digit (unat b mod 16)]"

definition hex_of_bytes :: "bytes \<Rightarrow> jsstring" where
  "hex_of_bytes bs = concat (map hex2 bs)"

section \<open>Arrays\<close>

text \<open>\<open>Array.prototype.indexOf\<close>: the first position of the element, or -1.\<close>

primrec indexOf :: "'a list \<Rightarrow> 'a \<Rightarrow> int" where
  "indexOf [] x = -1"
| "indexOf (y # ys) x =
     (if y = x then 0 else (let r = indexOf ys x in if r < 0 then -1 else r + 1))"

text \<open>
  A finite JavaScript number is a rational here (the rounding of doubles is left out: the
  numbers below are array positions and a limit of at most 50). \<open>ToIntegerOrInfinity\<close>
  drops the fractional part of a finite number.
\<close>

definition ToIntegerOrInfinity :: "rat \<Rightarrow> int" where
  "ToIntegerOrInfinity q = (if 0 \<le> q then \<lfloor>q\<rfloor> else \<lceil>q\<rceil>)"

text \<open>
  \<open>Array.prototype.slice(start, fin)\<close>: both arguments are truncated to integers, a
  negative one counts from the end, and both are clamped to the array.
\<close>

definition js_slice :: "'a list \<Rightarrow> rat \<Rightarrow> rat \<Rightarrow> 'a list" where
  "js_slice xs start fin =
     (let len = int (length xs);
          relativeStart = ToIntegerOrInfinity start;
          k = (if relativeStart < 0 then max (len + relativeStart) 0 else min relativeStart len);
          relativeEnd = ToIntegerOrInfinity fin;
          final = (if relativeEnd < 0 then max (len + relativeEnd) 0 else min relativeEnd len)
      in take (nat (final - k)) (drop (nat k) xs))"

text \<open>
  \<open>xs[i]\<close>: the element at \<open>i\<close> when \<open>i\<close> is an integer inside the array, and
  \<open>undefined\<close> otherwise: an array has no property named by a number that is not an
  integer, such as 1.5.
\<close>

definition js_nth :: "'a list \<Rightarrow> rat \<Rightarrow> 'a option" where
  "js_nth xs i =
     (if of_int \<lfloor>i\<rfloor> = i \<and> 0 \<le> i \<and> i < of_nat (length xs)
      then Some (xs ! nat \<lfloor>i\<rfloor>) else None)"

section \<open>Cursor pagination (DocumentStore.sliceIndex)\<close>

text \<open>
  The limit is a finite number, not always an integer: the router passes the number of
  the query clamped to the interval from 1 to 50, and does not round it; the store's
  default is 20. A cursor is used only when it is truthy.
\<close>

definition sliceIndex :: "jsstring list \<Rightarrow> rat \<Rightarrow> jsstring option \<Rightarrow> jsstring list \<times> jsstring option" where
  "sliceIndex index limit cursor =
     (let start = (case cursor of
                     None \<Rightarrow> 0
                   | Some c \<Rightarrow> if c \<noteq> [] then max (indexOf index c + 1) 0 else 0);
          slice = js_slice index (of_int start) (of_int start + limit);
          nextCursor = (if of_int start + limit < of_nat (length index)
                        then js_nth index (of_int start + limit - 1) else None)
      in (slice, nextCursor))"

text \<open>The position at which a page starts, as a natural number.\<close>

definition page_start :: "jsstring list \<Rightarrow> jsstring option \<Rightarrow> nat" where
  "page_start index cursor =
     (case cursor of
        None \<Rightarrow> 0
      | Some c \<Rightarrow> if c \<noteq> [] \<and> c \<in> set index
                  then Suc (length (takeWhile (\<lambda>y. y \<noteq> c) index)) else 0)"

section \<open>Data model (types.ts)\<close>

text \<open>
  Field names follow the source; \<open>id\<close> and \<open>size\<close> are \<open>doc_id\<close> and \<open>doc_size\<close>
  (\<open>v_size\<close>, \<open>v_createdAt\<close> in a version's metadata). \<open>DocumentView\<close> extends
  \<open>Omit<StoredDocumentMetadata, "ownerToken">\<close>: the shared fields are one record that
  both extend, so a view has no owner-token field.
\<close>

record VersionMetadata =
  versionId :: jsstring
  v_createdAt :: jsstring
  v_size :: nat
  hash :: jsstring

record DocumentFields =
  doc_id :: jsstring
  title :: jsstring
  createdAt :: jsstring
  updatedAt :: jsstring
  doc_size :: nat
  versions :: "VersionMetadata list"
  rawAccessKey :: "jsstring option"

record StoredDocumentMetadata = DocumentFields +
  ownerToken :: "jsstring option"

record DocumentView = DocumentFields +
  isOwner :: bool
  isPrivate :: bool

record DocumentVersion =
  metadata :: VersionMetadata
  content :: jsstring

record ShareTokenPayload =
  documentId :: jsstring
  expiresAt :: int

section \<open>The key-value namespace\<close>

text \<open>
  The store writes three families of keys: \<open>doc:<id>\<close> (a JSON document record),
  \<open>version:<id>:<versionId>\<close> (raw text) and the index keys \<open>documents:public:index\<close>,
  \<open>documents:owner:<token>\<close> (a JSON array of ids). No key of one family is a key of
  another, so the namespace is one map per family, each under the full key. Values are
  kept parsed: \<open>JSON.parse\<close> is taken to give back what \<open>JSON.stringify\<close> was given.
  \<open>kv_log\<close> lists the writes (\<open>put\<close> and \<open>delete\<close>) issued so far, latest first.
\<close>

datatype kv_op = Put jsstring | Delete jsstring

record kv_state =
  doc_records :: "jsstring \<rightharpoonup> StoredDocumentMetadata"
  version_blobs :: "jsstring \<rightharpoonup> jsstring"
  indexes :: "jsstring \<rightharpoonup> jsstring list"
  kv_log :: "kv_op list"

definition DOCUMENT_KEY_PREFIX :: jsstring where
  "DOCUMENT_KEY_PREFIX = js ''doc:''"

definition VERSION_KEY_PREFIX :: jsstring where
  "VERSION_KEY_PREFIX = js ''version:''"

definition PUBLIC_INDEX_KEY :: jsstring where
  "PUBLIC_INDEX_KEY = js ''documents:public:index''"

definition OWNER_INDEX_PREFIX :: jsstring where
  "OWNER_INDEX_PREFIX = js ''documents:owner:''"

definition ownerIndexKey :: "jsstring \<Rightarrow> jsstring" where
  "ownerIndexKey tok = OWNER_INDEX_PREFIX @ tok"

definition version_key :: "jsstring \<Rightarrow> jsstring \<Rightarrow> jsstring" where
  "version_key ident vid = VERSION_KEY_PREFIX @ ident @ js '':'' @ vid"

section \<open>What the runtime supplies to one call\<close>

text \<open>
  \<open>nanoid(12)\<close>, \<open>nanoid(10)\<close>, \<open>nanoid(16)\<close> and \<open>new Date().toISOString()\<close> as they
  come out during the call, and the SHA-256 digest of \<open>crypto.subtle\<close>.
\<close>

record runtime =
  nanoid12 :: jsstring
  nanoid10 :: jsstring
  nanoid16 :: jsstring
  now_iso :: jsstring
  sha256 :: "bytes \<Rightarrow> bytes"

section \<open>DocumentStore (storage.ts)\<close>

datatype store_error = NOT_FOUND | FORBIDDEN | FILE_TOO_LARGE

text \<open>
  The expression \<open>t?.trim() ? t.trim() : undefined\<close> that \<open>createDocument\<close>,
  \<open>updateDocument\<close> and \<open>deleteDocument\<close> apply to the caller's and to the stored token.
\<close>

definition trimmed_token :: "jsstring option \<Rightarrow> jsstring option" where
  "trimmed_token t =
     (case t of None \<Rightarrow> None | Some s \<Rightarrow> if trim s \<noteq> [] then Some (trim s) else None)"

definition assertSize :: "int \<Rightarrow> jsstring \<Rightarrow> store_error + unit" where
  "assertSize maxSize cont =
     (let sz = byteLength (TextEncoder_encode cont)
      in if int sz > maxSize then Inl FILE_TOO_LARGE else Inr ())"

definition hashContent :: "runtime \<Rightarrow> jsstring \<Rightarrow> jsstring" where
  "hashContent rt cont = hex_of_bytes (sha256 rt (TextEncoder_encode cont))"

definition toView :: "StoredDocumentMetadata \<Rightarrow> jsstring option \<Rightarrow> DocumentView" where
  "toView md viewerToken =
     (let hasOwner = truthy (ownerToken md);
          is_owner = (if hasOwner then viewerToken = ownerToken md else False)
      in \<lparr>doc_id = doc_id md, title = title md, createdAt = createdAt md,
          updatedAt = updatedAt md, doc_size = doc_size md, versions = versions md,
          rawAccessKey = (if hasOwner then rawAccessKey md else None),
          isOwner = is_owner, isPrivate = hasOwner\<rparr>)"

definition getRecord :: "kv_state \<Rightarrow> jsstring \<Rightarrow> StoredDocumentMetadata option" where
  "getRecord s ident = doc_records s (DOCUMENT_KEY_PREFIX @ ident)"

definition putRecord :: "jsstring \<Rightarrow> StoredDocumentMetadata \<Rightarrow> kv_state \<Rightarrow> kv_state" where
  "putRecord ident md s =
     s\<lparr>doc_records := (doc_records s)(DOCUMENT_KEY_PREFIX @ ident \<mapsto> md),
       kv_log := Put (DOCUMENT_KEY_PREFIX @ ident) # kv_log s\<rparr>"

definition putVersion :: "jsstring \<Rightarrow> jsstring \<Rightarrow> jsstring \<Rightarrow> kv_state \<Rightarrow> kv_state" where
  "putVersion ident vid cont s =
     s\<lparr>version_blobs := (version_blobs s)(version_key ident vid \<mapsto> cont),
       kv_log := Put (version_key ident vid) # kv_log s\<rparr>"

definition deleteRecord :: "jsstring \<Rightarrow> kv_state \<Rightarrow> kv_state" where
  "deleteRecord ident s =
     s\<lparr>doc_records := (doc_records s)(DOCUMENT_KEY_PREFIX @ ident := None),
       kv_log := Delete (DOCUMENT_KEY_PREFIX @ ident) # kv_log s\<rparr>"

definition deleteVersion :: "jsstring \<Rightarrow> jsstring \<Rightarrow> kv_state \<Rightarrow> kv_state" where
  "deleteVersion ident vid s =
     s\<lparr>version_blobs := (version_blobs s)(version_key ident vid := None),
       kv_log := Delete (version_key ident vid) # kv_log s\<rparr>"

definition getIndex :: "kv_state \<Rightarrow> jsstring \<Rightarrow> jsstring list" where
  "getIndex s key = (case indexes s key of None \<Rightarrow> [] | Some ids \<Rightarrow> ids)"

definition pushToIndex :: "jsstring \<Rightarrow> jsstring \<Rightarrow> kv_state \<Rightarrow> kv_state" where
  "pushToIndex key ident s =
     (let index = getIndex s key;
          filtered = filter (\<lambda>existing. existing \<noteq> ident) index
      in s\<lparr>indexes := (indexes s)(key \<mapsto> ident # filtered), kv_log := Put key # kv_log s\<rparr>)"

definition removeFromIndex :: "jsstring \<Rightarrow> jsstring \<Rightarrow> kv_state \<Rightarrow> kv_state" where
  "removeFromIndex key ident s =
     (let index = getIndex s key;
          filtered = filter (\<lambda>existing. existing \<noteq> ident) index
      in s\<lparr>indexes := (indexes s)(key \<mapsto> filtered), kv_log := Put key # kv_log s\<rparr>)"

definition touchOwnerIndex :: "jsstring option \<Rightarrow> jsstring \<Rightarrow> kv_state \<Rightarrow> kv_state" where
  "touchOwnerIndex tok documentId' s =
     (case tok of
        None \<Rightarrow> s
      | Some t \<Rightarrow> if t = [] then s else pushToIndex (ownerIndexKey t) documentId' s)"

definition updatePublicIndex :: "jsstring \<Rightarrow> bool \<Rightarrow> kv_state \<Rightarrow> kv_state" where
  "updatePublicIndex documentId' isPublic s =
     (if isPublic then pushToIndex PUBLIC_INDEX_KEY documentId' s
      else removeFromIndex PUBLIC_INDEX_KEY documentId' s)"

text \<open>
  The writes of one call are issued together (\<open>Promise.all\<close>). Each of them reads and
  writes one key only, and two tasks of one call touch the same key only when they are
  the same deletion (a version id listed twice), so the order among them does not
  matter; they are composed in the order of the \<open>tasks\<close> array. An operation returns
  its result, or the error it throws, with the namespace as it leaves it.
\<close>

definition createDocument ::
  "int \<Rightarrow> runtime \<Rightarrow> jsstring \<Rightarrow> jsstring \<Rightarrow> jsstring option \<Rightarrow> kv_state
     \<Rightarrow> (store_error + DocumentView \<times> DocumentVersion) \<times> kv_state" where
  "createDocument maxSize rt title' cont tok s =
     (case assertSize maxSize cont of
        Inl e \<Rightarrow> (Inl e, s)
      | Inr _ \<Rightarrow>
          (let owner = trimmed_token tok;
               ident = nanoid12 rt;
               vid = nanoid10 rt;
               now = now_iso rt;
               sz = byteLength (TextEncoder_encode cont);
               h = hashContent rt cont;
               versionMetadata = \<lparr>versionId = vid, v_createdAt = now, v_size = sz, hash = h\<rparr>;
               stored = \<lparr>doc_id = ident, title = title', createdAt = now, updatedAt = now,
                         doc_size = sz, versions = [versionMetadata],
                         rawAccessKey = (if truthy owner then Some (nanoid16 rt) else None),
                         ownerToken = owner\<rparr>;
               s1 = putRecord ident stored s;
               s2 = putVersion ident vid cont s1;
               s3 = updatePublicIndex (doc_id stored) (\<not> truthy owner) s2;
               s4 = (if truthy owner then touchOwnerIndex owner (doc_id stored) s3 else s3)
           in (Inr (toView stored owner, \<lparr>metadata = versionMetadata, content = cont\<rparr>), s4)))"

definition updateDocument ::
  "int \<Rightarrow> runtime \<Rightarrow> jsstring \<Rightarrow> jsstring \<Rightarrow> jsstring option \<Rightarrow> kv_state
     \<Rightarrow> (store_error + DocumentView \<times> DocumentVersion) \<times> kv_state" where
  "updateDocument maxSize rt ident cont tok s =
     (case assertSize maxSize cont of
        Inl e \<Rightarrow> (Inl e, s)
      | Inr _ \<Rightarrow>
          (case getRecord s ident of
             None \<Rightarrow> (Inl NOT_FOUND, s)
           | Some md \<Rightarrow>
               (let existingOwner = trimmed_token (ownerToken md);
                    owner = trimmed_token tok
                in if truthy existingOwner \<and> existingOwner \<noteq> owner then (Inl FORBIDDEN, s)
                   else if \<not> truthy existingOwner \<and> truthy owner then (Inl FORBIDDEN, s)
                   else
                     (let vid = nanoid10 rt;
                          now = now_iso rt;
                          sz = byteLength (TextEncoder_encode cont);
                          h = hashContent rt cont;
                          versionMetadata =
                            \<lparr>versionId = vid, v_createdAt = now, v_size = sz, hash = h\<rparr>;
                          md1 = md\<lparr>updatedAt := now, doc_size := sz,
                                   versions := versionMetadata # versions md\<rparr>;
                          md2 = (if truthy existingOwner
                                 then md1\<lparr>rawAccessKey := Some (nanoid16 rt)\<rparr> else md1);
                          s1 = putRecord ident md2 s;
                          s2 = putVersion ident vid cont s1;
                          s3 = updatePublicIndex (doc_id md2) (\<not> truthy existingOwner) s2;
                          s4 = (if truthy existingOwner
                                then touchOwnerIndex existingOwner (doc_id md2) s3 else s3)
                      in (Inr (toView md2 owner,
                               \<lparr>metadata = versionMetadata, content = cont\<rparr>), s4)))))"

text \<open>The loop of \<open>deleteDocument\<close> over the versions of the record.\<close>

fun deleteVersions :: "jsstring \<Rightarrow> VersionMetadata list \<Rightarrow> kv_state \<Rightarrow> kv_state" where
  "deleteVersions ident [] s = s"
| "deleteVersions ident (v # vs) s = deleteVersions ident vs (deleteVersion ident (versionId v) s)"

definition deleteDocument ::
  "jsstring \<Rightarrow> jsstring option \<Rightarrow> kv_state \<Rightarrow> (store_error + unit) \<times> kv_state" where
  "deleteDocument ident tok s =
     (case getRecord s ident of
        None \<Rightarrow> (Inl NOT_FOUND, s)
      | Some md \<Rightarrow>
          (let existingOwner = trimmed_token (ownerToken md);
               token = trimmed_token tok
           in if truthy existingOwner \<and> existingOwner \<noteq> token then (Inl FORBIDDEN, s)
              else if \<not> truthy existingOwner \<and> truthy token then (Inl FORBIDDEN, s)
              else
                (let s1 = deleteRecord ident s;
                     s2 = updatePublicIndex ident False s1;
                     s3 = (case existingOwner of
                             None \<Rightarrow> s2
                           | Some t \<Rightarrow> if t = [] then s2
                                       else removeFromIndex (ownerIndexKey t) ident s2);
                     s4 = deleteVersions ident (versions md) s3
                 in (Inr (), s4))))"

definition getDocument :: "kv_state \<Rightarrow> jsstring \<Rightarrow> jsstring option \<Rightarrow> DocumentView option" where
  "getDocument s ident viewerToken =
     (case getRecord s ident of None \<Rightarrow> None | Some md \<Rightarrow> Some (toView md viewerToken))"

definition getVersion :: "kv_state \<Rightarrow> jsstring \<Rightarrow> jsstring \<Rightarrow> DocumentVersion option" where
  "getVersion s ident vid =
     (case version_blobs s (version_key ident vid) of
        None \<Rightarrow> None
      | Some cont \<Rightarrow>
          if cont = [] then None
          else (case getRecord s ident of
                  None \<Rightarrow> None
                | Some md \<Rightarrow>
                    (case find (\<lambda>v. versionId v = vid) (versions md) of
                       None \<Rightarrow> None
                     | Some versionMetadata \<Rightarrow>
                         Some \<lparr>metadata = versionMetadata, content = cont\<rparr>)))"

fun loadViews :: "kv_state \<Rightarrow> jsstring list \<Rightarrow> jsstring option \<Rightarrow> DocumentView list" where
  "loadViews s [] viewerToken = []"
| "loadViews s (i # ids) viewerToken =
     (case getRecord s i of
        None \<Rightarrow> loadViews s ids viewerToken
      | Some md \<Rightarrow>
          if truthy (ownerToken md) \<and> ownerToken md \<noteq> viewerToken
          then loadViews s ids viewerToken
          else toView md viewerToken # loadViews s ids viewerToken)"

definition listPublicDocuments ::
  "kv_state \<Rightarrow> jsstring option \<Rightarrow> rat \<Rightarrow> jsstring option \<Rightarrow> DocumentView list \<times> jsstring option" where
  "listPublicDocuments s viewerToken limit cursor =
     (let index = getIndex s PUBLIC_INDEX_KEY;
          (slice, nextCursor) = sliceIndex index limit cursor
      in (loadViews s slice viewerToken, nextCursor))"

definition listOwnerDocuments ::
  "kv_state \<Rightarrow> jsstring option \<Rightarrow> rat \<Rightarrow> jsstring option \<Rightarrow> DocumentView list \<times> jsstring option" where
  "listOwnerDocuments s tok limit cursor =
     (case tok of
        None \<Rightarrow> ([], None)
      | Some t \<Rightarrow>
          if t = [] then ([], None)
          else (let index = getIndex s (ownerIndexKey t);
                    (slice, nextCursor) = sliceIndex index limit cursor
                in (loadViews s slice tok, nextCursor)))"

section \<open>Routes (router.ts, errors.ts)\<close>

text \<open>
  What a handler throws: an \<open>HttpError\<close> with its status and message, an error
  of the store that it throws again, or a \<open>TypeError\<close> of the runtime.
\<close>

datatype thrown = HttpError nat string | StoreError store_error | TypeError

definition notFound :: thrown where
  "notFound = HttpError 404 ''Not found''"

definition forbidden :: "string \<Rightarrow> thrown" where
  "forbidden message = HttpError 403 message"

text \<open>
  The value of a number expression: \<open>NaN\<close>, an infinity, or a finite number.
\<close>

datatype jsnumber = NaN | NegInfinity | Finite rat | PosInfinity

text \<open>
  The limit of \<open>GET /api/documents\<close>:
  \<open>Math.min(Math.max(Number(c.req.query("limit")) || 20, 1), 50)\<close>, where \<open>n\<close> is the
  value of \<open>Number(c.req.query("limit"))\<close> (\<open>NaN\<close> when the parameter is absent or
  is not a number). \<open>NaN\<close> and 0 are falsy and give 20; the result is not rounded.
\<close>

definition route_limit :: "jsnumber \<Rightarrow> rat" where
  "route_limit n =
     (case n of
        NaN \<Rightarrow> min (max 20 1) 50
      | NegInfinity \<Rightarrow> min 1 50
      | PosInfinity \<Rightarrow> 50
      | Finite q \<Rightarrow> min (max (if q = 0 then 20 else q) 1) 50)"

text \<open>
  \<open>GET /api/documents\<close>; \<open>n\<close> is the number read from the \<open>limit\<close> parameter,
  \<open>cursorQ\<close> and \<open>scope\<close> are the query parameters of these names, \<open>hdr\<close> is the
  value of the \<open>x-user-token\<close> header.
\<close>

definition list_route ::
  "kv_state \<Rightarrow> jsnumber \<Rightarrow> jsstring option \<Rightarrow> jsstring option \<Rightarrow> jsstring option
     \<Rightarrow> DocumentView list \<times> jsstring option" where
  "list_route s n cursorQ scope hdr =
     (let limit = route_limit n in
      if truthy hdr \<and> scope = Some (js ''mine'')
      then listOwnerDocuments s hdr limit cursorQ
      else listPublicDocuments s hdr limit cursorQ)"

text \<open>\<open>DELETE /api/documents/:id\<close>; \<open>hdr\<close> is the value of the \<open>x-user-token\<close> header.\<close>

definition delete_route :: "jsstring \<Rightarrow> jsstring option \<Rightarrow> kv_state \<Rightarrow> (thrown + unit) \<times> kv_state" where
  "delete_route ident hdr s =
     (if \<not> truthy hdr then (Inl (forbidden ''owner token required''), s)
      else (case deleteDocument ident hdr s of
              (Inr _, s') \<Rightarrow> (Inr (), s')
            | (Inl NOT_FOUND, s') \<Rightarrow> (Inl notFound, s')
            | (Inl FORBIDDEN, s') \<Rightarrow> (Inl (forbidden ''owner token required''), s')
            | (Inl FILE_TOO_LARGE, s') \<Rightarrow> (Inl (StoreError FILE_TOO_LARGE), s')))"

text \<open>
  \<open>GET /api/documents/:id/raw\<close> with the query parameters \<open>versionId\<close> and \<open>rawKey\<close>
  and the \<open>x-user-token\<close> header; the result is the body of the response.
\<close>

definition raw_route ::
  "kv_state \<Rightarrow> jsstring \<Rightarrow> jsstring option \<Rightarrow> jsstring option \<Rightarrow> jsstring option
     \<Rightarrow> thrown + jsstring" where
  "raw_route s ident versionIdQ rawKey hdr =
     (case getDocument s ident hdr of
        None \<Rightarrow> Inl notFound
      | Some document \<Rightarrow>
          if \<not> isOwner document \<and> isPrivate document \<and>
             (\<not> truthy rawKey \<or> \<not> truthy (rawAccessKey document) \<or> rawKey \<noteq> rawAccessKey document)
          then Inl (forbidden ''owner token required'')
          else
            (let chosen =
                   (if truthy versionIdQ
                    then (case find (\<lambda>v. Some (versionId v) = versionIdQ) (versions document) of
                            None \<Rightarrow> Inl notFound
                          | Some found \<Rightarrow> Inr found)
                    else (case versions document of
                            [] \<Rightarrow> Inl TypeError
                          | v # _ \<Rightarrow> Inr v))
             in case chosen of
                  Inl e \<Rightarrow> Inl e
                | Inr version \<Rightarrow>
                    (case getVersion s ident (versionId version) of
                       None \<Rightarrow> Inl notFound
                     | Some fullVersion \<Rightarrow> Inr (content fullVersion))))"

section \<open>Share tokens (auth.ts)\<close>

text \<open>
  \<open>btoa\<close>: a string with a code unit above 0xFF makes it throw (no result); otherwise
  the code units are bytes and are written in base64 with padding.
\<close>

definition b64_alphabet :: "16 word list" where
  "b64_alphabet = js ''ABCDEFGHIJKLMNOPQRSTUVWXYZabcdefghijklmnopqrstuvwxyz0123456789+/''"

definition b64_char :: "nat \<Rightarrow> 16 word" where
  "b64_char n = b64_alphabet ! (n mod 64)"

definition pad_char :: "16 word" where
  "pad_char = 0x3D"

fun b64_encode :: "nat list \<Rightarrow> jsstring" where
  "b64_encode [] = []"
| "b64_encode [a] = [b64_char (a div 4), b64_char ((a mod 4) * 16), pad_char, pad_char]"
| "b64_encode [a, b] =
     [b64_char (a div 4), b64_char ((a mod 4) * 16 + b div 16), b64_char ((b mod 16) * 4),
      pad_char]"
| "b64_encode (a # b # c # rest) =
     [b64_char (a div 4), b64_char ((a mod 4) * 16 + b div 16),
      b64_char ((b mod 16) * 4 + c div 64), b64_char (c mod 64)] @ b64_encode rest"

definition btoa :: "jsstring \<Rightarrow> jsstring option" where
  "btoa s = (if list_all (\<lambda>c. c \<le> 0xFF) s then Some (b64_encode (map unat s)) else None)"

text \<open>
  \<open>atob\<close> (the forgiving base64 decoding of the platform): ASCII whitespace is removed;
  when the length is a multiple of 4, one or two padding characters at the end are
  removed; a length of 1 modulo 4 and a character outside the alphabet make it throw;
  otherwise every character gives 6 bits and every 8 bits a code unit, left-over bits
  dropped.
\<close>

definition is_ascii_ws :: "16 word \<Rightarrow> bool" where
  "is_ascii_ws c = (c \<in> set [0x09, 0x0A, 0x0C, 0x0D, 0x20])"

primrec b64_index :: "16 word list \<Rightarrow> 16 word \<Rightarrow> nat option" where
  "b64_index [] c = None"
| "b64_index (x # xs) c = (if x = c then Some 0 else map_option Suc (b64_index xs c))"

definition b64_value :: "16 word \<Rightarrow> nat option" where
  "b64_value c = b64_index b64_alphabet c"

fun b64_decode :: "nat list \<Rightarrow> nat list" where
  "b64_decode (p # q # r # t # rest) =
     [p * 4 + q div 16, (q mod 16) * 16 + r div 4, (r mod 4) * 64 + t] @ b64_decode rest"
| "b64_decode [p, q, r] = [p * 4 + q div 16, (q mod 16) * 16 + r div 4]"
| "b64_decode [p, q] = [p * 4 + q div 16]"
| "b64_decode [p] = []"
| "b64_decode [] = []"

fun those_values :: "16 word list \<Rightarrow> nat list option" where
  "those_values [] = Some []"
| "those_values (c # cs) =
     (case b64_value c of
        None \<Rightarrow> None
      | Some v \<Rightarrow> (case those_values cs of None \<Rightarrow> None | Some vs \<Rightarrow> Some (v # vs)))"

definition strip_padding :: "jsstring \<Rightarrow> jsstring" where
  "strip_padding d =
     (if length d mod 4 = 0
      then (if 2 \<le> length d \<and> drop (length d - 2) d = [pad_char, pad_char]
            then take (length d - 2) d
            else if 1 \<le> length d \<and> drop (length d - 1) d = [pad_char]
            then take (length d - 1) d
            else d)
      else d)"

definition atob :: "jsstring \<Rightarrow> jsstring option" where
  "atob s =
     (let d = strip_padding (filter (\<lambda>c. \<not> is_ascii_ws c) s)
      in if length d mod 4 = 1 then None
         else (case those_values d of
                 None \<Rightarrow> None
               | Some vs \<Rightarrow> Some (map of_nat (b64_decode vs))))"

text \<open>
  \<open>JSON.stringify\<close> of a payload object \<open>{documentId, expiresAt}\<close>: the two members in
  this order, the strings quoted as \<open>QuoteJSONString\<close> does (short escapes, \<open>\u\<close> escapes
  for the other control characters and for lone surrogates), the number in decimal
  (\<open>expiresAt\<close> is a count of milliseconds, an integer).
\<close>

definition hex4 :: "16 word \<Rightarrow> jsstring" where
  "hex4 c = [hex_digit (unat c div 4096), hex_digit (unat c div 256),
             hex_digit (unat c div 16), hex_digit (unat c)]"

definition escape_unit :: "16 word \<Rightarrow> jsstring" where
  "escape_unit c =
     (if c = 0x08 then [0x5C, 0x62]
      else if c = 0x09 then [0x5C, 0x74]
      else if c = 0x0A then [0x5C, 0x6E]
      else if c = 0x0C then [0x5C, 0x66]
      else if c = 0x0D then [0x5C, 0x72]
      else if c = 0x22 then [0x5C, 0x22]
      else if c = 0x5C then [0x5C, 0x5C]
      else if c < 0x20 \<or> is_lead_surrogate c \<or> is_trail_surrogate c
      then [0x5C, 0x75] @ hex4 c
      else [c])"

fun json_escape :: "jsstring \<Rightarrow> jsstring" where
  "json_escape [] = []"
| "json_escape [c] = escape_unit c"
| "json_escape (c # d # ds) =
     (if is_lead_surrogate c \<and> is_trail_surrogate d then c # d # json_escape ds
      else escape_unit c @ json_escape (d # ds))"

definition json_quote :: "jsstring \<Rightarrow> jsstring" where
  "json_quote s = 0x22 # json_escape s @ [0x22]"

fun digits_of :: "nat \<Rightarrow> jsstring" where
  "digits_of n =
     (if n < 10 then [0x30 + of_nat n] else digits_of (n div 10) @ [0x30 + of_nat (n mod 10)])"

definition number_to_string :: "int \<Rightarrow> jsstring" where
  "number_to_string n = (if n < 0 then 0x2D # digits_of (nat (- n)) else digits_of (nat n))"

definition JSON_stringify :: "ShareTokenPayload \<Rightarrow> jsstring" where
  "JSON_stringify payload =
     js ''{'' @ json_quote (js ''documentId'') @ js '':'' @ json_quote (documentId payload)
       @ js '','' @ json_quote (js ''expiresAt'') @ js '':'' @ number_to_string (expiresAt payload)
       @ js ''}''"

text \<open>
  What the runtime supplies to the two functions: the HMAC-SHA-256 of \<open>crypto.subtle\<close>
  (key bytes, then message bytes), \<open>JSON.parse\<close> read at the type the source casts its
  result to (no result when it throws), and \<open>Date.now()\<close>.
\<close>

record auth_runtime =
  hmac_sha256 :: "bytes \<Rightarrow> bytes \<Rightarrow> bytes"
  JSON_parse :: "jsstring \<Rightarrow> ShareTokenPayload option"
  date_now :: int

definition sign :: "auth_runtime \<Rightarrow> jsstring \<Rightarrow> jsstring \<Rightarrow> jsstring" where
  "sign art data secret =
     hex_of_bytes (hmac_sha256 art (TextEncoder_encode secret) (TextEncoder_encode data))"

text \<open>
  The loop of \<open>timingSafeEqual\<close>: \<open>result |= a.charCodeAt(i) ^ b.charCodeAt(i)\<close> on 32-bit
  integers, over the positions of \<open>a\<close>; past the end of \<open>b\<close> \<open>charCodeAt\<close> is \<open>NaN\<close>,
  which the operator reads as 0.
\<close>

fun or_xor_loop :: "32 word \<Rightarrow> jsstring \<Rightarrow> jsstring \<Rightarrow> 32 word" where
  "or_xor_loop result [] b = result"
| "or_xor_loop result (x # a) [] = or_xor_loop (result OR (ucast x XOR 0)) a []"
| "or_xor_loop result (x # a) (y # b) = or_xor_loop (result OR (ucast x XOR ucast y)) a b"

definition timingSafeEqual :: "jsstring \<Rightarrow> jsstring \<Rightarrow> bool" where
  "timingSafeEqual a b = (if length a \<noteq> length b then False else or_xor_loop 0 a b = 0)"

text \<open>\<open>String.prototype.split\<close> on a separator of one code unit.\<close>

fun split_on :: "16 word \<Rightarrow> jsstring \<Rightarrow> jsstring list" where
  "split_on sep [] = [[]]"
| "split_on sep (c # cs) =
     (if c = sep then [] # split_on sep cs
      else (case split_on sep cs of [] \<Rightarrow> [[c]] | p # ps \<Rightarrow> (c # p) # ps))"

definition createShareToken :: "auth_runtime \<Rightarrow> ShareTokenPayload \<Rightarrow> jsstring \<Rightarrow> jsstring option" where
  "createShareToken art payload secret =
     (let data = JSON_stringify payload;
          signature = sign art data secret
      in btoa (data @ js ''.'' @ signature))"

text \<open>
  \<open>verifyShareToken\<close>: everything runs inside \<open>try\<close>, and \<open>catch\<close> returns \<open>null\<close>, so
  a throw of \<open>atob\<close> or of \<open>JSON.parse\<close> is the result \<open>None\<close>. The destructuring
  \<open>[data, signature]\<close> takes the first two parts of the split.
\<close>

definition verifyShareToken :: "auth_runtime \<Rightarrow> jsstring \<Rightarrow> jsstring \<Rightarrow> ShareTokenPayload option" where
  "verifyShareToken art token secret =
     (case atob token of
        None \<Rightarrow> None
      | Some decoded \<Rightarrow>
          (case split_on 0x2E decoded of
             [] \<Rightarrow> None
           | [data] \<Rightarrow> None
           | data # signature # _ \<Rightarrow>
               if data = [] \<or> signature = [] then None
               else (let expected = sign art data secret
                     in if \<not> timingSafeEqual signature expected then None
                        else (case JSON_parse art data of
                                None \<Rightarrow> None
                              | Some payload \<Rightarrow>
                                  if expiresAt payload < date_now art then None
                                  else Some payload))))"

section \<open>Terms for the statements\<close>

text \<open>
  The version metadata and the records that \<open>createDocument\<close> and \<open>updateDocument\<close>
  build, named so that statements can refer to them.
\<close>

definition new_version :: "runtime \<Rightarrow> jsstring \<Rightarrow> VersionMetadata" where
  "new_version rt cont =
     \<lparr>versionId = nanoid10 rt, v_createdAt = now_iso rt,
      v_size = byteLength (TextEncoder_encode cont), hash = hashContent rt cont\<rparr>"

definition updated_metadata :: "runtime \<Rightarrow> jsstring \<Rightarrow> StoredDocumentMetadata \<Rightarrow> StoredDocumentMetadata" where
  "updated_metadata rt cont md =
     md\<lparr>updatedAt := now_iso rt, doc_size := byteLength (TextEncoder_encode cont),
        versions := new_version rt cont # versions md,
        rawAccessKey := (if trimmed_token (ownerToken md) \<noteq> None
                         then Some (nanoid16 rt) else rawAccessKey md)\<rparr>"

definition created_metadata :: "runtime \<Rightarrow> jsstring \<Rightarrow> jsstring \<Rightarrow> jsstring option \<Rightarrow> StoredDocumentMetadata" where
  "created_metadata rt ttl cont tok =
     \<lparr>doc_id = nanoid12 rt, title = ttl, createdAt = now_iso rt, updatedAt = now_iso rt,
      doc_size = byteLength (TextEncoder_encode cont), versions = [new_version rt cont],
      rawAccessKey = (if trimmed_token tok \<noteq> None then Some (nanoid16 rt) else None),
      ownerToken = trimmed_token tok\<rparr>"

text \<open>
  A run of \<open>updateDocument\<close> calls on one document, each with what the runtime supplies
  to it, its content and its caller token. The result is there when every call of the
  run succeeded: the metadata of the versions the calls returned, latest call first,
  and the namespace after the last call.
\<close>

fun successful_updates ::
  "int \<Rightarrow> jsstring \<Rightarrow> (runtime \<times> jsstring \<times> jsstring option) list \<Rightarrow> kv_state
     \<Rightarrow> (VersionMetadata list \<times> kv_state) option" where
  "successful_updates maxSize ident [] s = Some ([], s)"
| "successful_updates maxSize ident ((rt, cont, tok) # calls) s =
     (case updateDocument maxSize rt ident cont tok s of
        (Inl e, s') \<Rightarrow> None
      | (Inr (view, ver), s') \<Rightarrow>
          (case successful_updates maxSize ident calls s' of
             None \<Rightarrow> None
           | Some (added, s'') \<Rightarrow> Some (added @ [metadata ver], s'')))"

text \<open>
  The base64 characters of a byte sequence before padding, as 6-bit values, and the
  digits that \<open>hex_of_bytes\<close> writes.
\<close>

fun b64_body :: "nat list \<Rightarrow> nat list" where
  "b64_body [] = []"
| "b64_body [a] = [a div 4, (a mod 4) * 16]"
| "b64_body [a, b] = [a div 4, (a mod 4) * 16 + b div 16, (b mod 16) * 4]"
| "b64_body (a # b # c # rest) =
     [a div 4, (a mod 4) * 16 + b div 16, (b mod 16) * 4 + c div 64, c mod 64] @ b64_body rest"

definition hex_digits :: "16 word list" where
  "hex_digits = js ''0123456789abcdef''"

section \<open>Example inputs\<close>

text \<open>
  Runtimes with fixed identifiers (and a fixed 32-byte code in place of the digest,
  which no statement depends on), the empty namespace, and the namespace after one
  document is created in it, privately by the token T1 or publicly.
\<close>

definition empty_kv :: kv_state where
  "empty_kv = \<lparr>doc_records = Map.empty, version_blobs = Map.empty, indexes = Map.empty, kv_log = []\<rparr>"

definition example_digest :: "bytes \<Rightarrow> bytes" where
  "example_digest bs = replicate 32 (of_nat (length bs))"

definition rt1 :: runtime where
  "rt1 = \<lparr>nanoid12 = js ''V1StGXR8_Z5j'', nanoid10 = js ''ver0000001'',
          nanoid16 = js ''rawkey0000000001'', now_iso = js ''2024-05-01T10:00:00.000Z'',
          sha256 = example_digest\<rparr>"

definition rt2 :: runtime where
  "rt2 = \<lparr>nanoid12 = js ''unused000000'', nanoid10 = js ''ver0000002'',
          nanoid16 = js ''rawkey0000000002'', now_iso = js ''2024-05-02T10:00:00.000Z'',
          sha256 = example_digest\<rparr>"

definition rt3 :: runtime where
  "rt3 = \<lparr>nanoid12 = js ''unused000001'', nanoid10 = js ''ver0000003'',
          nanoid16 = js ''rawkey0000000003'', now_iso = js ''2024-05-03T10:00:00.000Z'',
          sha256 = example_digest\<rparr>"

definition private_doc_state :: kv_state where
  "private_doc_state =
     snd (createDocument 100 rt1 (js ''a.md'') (js ''hello'') (Some (js ''T1'')) empty_kv)"

definition public_doc_state :: kv_state where
  "public_doc_state =
     snd (createDocument 100 rt1 (js ''a.md'') (js ''hello'') None empty_kv)"

definition two_public_state :: kv_state where
  "two_public_state =
     snd (createDocument 100 rt2 (js ''b.md'') (js ''hello2'') None public_doc_state)"

definition example_payload :: ShareTokenPayload where
  "example_payload = \<lparr>documentId = js ''V1StGXR8_Z5j'', expiresAt = 2000\<rparr>"

text \<open>
  A stand-in for the runtime of the examples: a fixed 32-byte code in place of the HMAC,
  a \<open>JSON.parse\<close> that reads the text of \<open>example_payload\<close> and nothing else, and the
  clock at 1000.
\<close>

definition example_art :: auth_runtime where
  "example_art =
     \<lparr>hmac_sha256 = (\<lambda>k m. replicate 32 (of_nat (length k + length m))),
      JSON_parse = (\<lambda>d. if d = JSON_stringify example_payload then Some example_payload else None),
      date_now = 1000\<rparr>"

section \<open>Pagination\<close>

lemma indexOf_notin: "x \<notin> set xs \<Longrightarrow> indexOf xs x = -1"
  by (induction xs) (auto simp: Let_def)

lemma indexOf_in: "x \<in> set xs \<Longrightarrow> indexOf xs x = int (length (takeWhile (\<lambda>y. y \<noteq> x) xs))"
  by (induction xs) (auto simp: Let_def indexOf_notin)

lemma sliceIndex_start:
  "(case cursor of None \<Rightarrow> 0 | Some c \<Rightarrow> if c \<noteq> [] then max (indexOf index c + 1) 0 else 0)
     = int (page_start index cursor)"
  by (cases "\<exists>c. cursor = Some c \<and> c \<in> set index")
     (auto simp: page_start_def indexOf_in indexOf_notin split: option.splits)

lemma take_min_length: "take (min n (length ys)) ys = take n ys"
  by (cases "n \<le> length ys") (simp_all add: min_def)

lemma ToIntegerOrInfinity_of_nat: "ToIntegerOrInfinity (of_nat k) = int k"
  by (simp add: ToIntegerOrInfinity_def)

lemma ToIntegerOrInfinity_add:
  assumes "0 \<le> l"
  shows "ToIntegerOrInfinity (of_nat k + l) = int k + \<lfloor>l\<rfloor>"
proof -
  have "of_nat k + l = of_int (int k) + l" by simp
  then have "\<lfloor>of_nat k + l\<rfloor> = int k + \<lfloor>l\<rfloor>" by (simp only: floor_add_int [symmetric] add.commute)
  moreover have "0 \<le> of_nat k + l" using assms by simp
  ultimately show ?thesis by (simp add: ToIntegerOrInfinity_def)
qed

lemma js_slice_nonneg:
  assumes "0 \<le> l"
  shows "js_slice xs (of_nat k) (of_nat k + l) = take (nat \<lfloor>l\<rfloor>) (drop k xs)"
proof -
  obtain m where m: "m = \<lfloor>l\<rfloor>" by simp
  have f: "0 \<le> m" using assms m by simp
  have g: "\<not> int k + m < 0" using f by linarith
  have js: "js_slice xs (of_nat k) (of_nat k + l)
      = take (nat (min (int k + m) (int (length xs)) - min (int k) (int (length xs))))
          (drop (nat (min (int k) (int (length xs)))) xs)"
    using g assms
    by (simp add: js_slice_def Let_def ToIntegerOrInfinity_of_nat ToIntegerOrInfinity_add
        m [symmetric])
  show ?thesis
  proof (cases "k \<le> length xs")
    case True
    have "nat (min (int k + m) (int (length xs)) - int k) = min (nat m) (length (drop k xs))"
      using f True by (simp add: min_def) linarith
    then have "js_slice xs (of_nat k) (of_nat k + l)
        = take (min (nat m) (length (drop k xs))) (drop k xs)"
      using True by (simp add: js)
    then show ?thesis by (simp only: take_min_length m)
  next
    case False
    then show ?thesis by (simp add: js)
  qed
qed

lemma last_take_drop:
  assumes "k + n < length xs" "0 < n"
  shows "last (take n (drop k xs)) = xs ! (k + n - 1)"
proof -
  have len: "length (take n (drop k xs)) = n" using assms by simp
  then have ne: "take n (drop k xs) \<noteq> []" using assms by auto
  have "last (take n (drop k xs)) = take n (drop k xs) ! (n - 1)"
    using ne len by (simp add: last_conv_nth)
  also have "\<dots> = xs ! (k + (n - 1))" using assms by simp
  finally show ?thesis using assms by simp
qed

lemma sliceIndex_eq:
  assumes "0 \<le> limit"
  shows "sliceIndex index limit cursor =
     (take (nat \<lfloor>limit\<rfloor>) (drop (page_start index cursor) index),
      if of_nat (page_start index cursor) + limit < of_nat (length index)
      then js_nth index (of_nat (page_start index cursor) + limit - 1) else None)"
proof -
  let ?k = "page_start index cursor"
  have sl: "js_slice index (of_nat ?k) (of_nat ?k + limit) = take (nat \<lfloor>limit\<rfloor>) (drop ?k index)"
    using assms by (rule js_slice_nonneg)
  show ?thesis
    unfolding sliceIndex_def sliceIndex_start Let_def of_int_of_nat_eq sl
    by simp
qed

lemma js_nth_fractional: "of_int \<lfloor>i\<rfloor> \<noteq> i \<Longrightarrow> js_nth xs i = None"
  by (simp add: js_nth_def)

lemma js_nth_of_nat: "n < length xs \<Longrightarrow> js_nth xs (of_nat n) = Some (xs ! n)"
  by (simp add: js_nth_def)

lemma fractional_shift:
  fixes limit :: rat
  assumes "of_int \<lfloor>limit\<rfloor> \<noteq> limit"
  shows "of_int \<lfloor>of_nat k + limit - 1\<rfloor> \<noteq> of_nat k + limit - 1"
proof
  assume a: "of_int \<lfloor>of_nat k + limit - 1\<rfloor> = of_nat k + limit - 1"
  have "limit = of_int (\<lfloor>of_nat k + limit - 1\<rfloor> - int k + 1)"
    unfolding of_int_add of_int_diff a by simp
  then have "limit \<in> \<int>" by (metis Ints_of_int)
  then show False using assms by (simp add: floor_of_int Ints_def)
qed

text \<open>
  With a limit that is an integer of at least 1, as the route passes for \<open>limit=2\<close> or
  for no \<open>limit\<close> parameter, the page is the next \<open>limit\<close> ids from \<open>page_start\<close>, and
  the cursor handed back is the last id of the page when entries follow the page, and
  absent otherwise.
\<close>

lemma sliceIndex_integer_limit:
  assumes "1 \<le> n"
  shows "sliceIndex index (of_int n) cursor =
     (take (nat n) (drop (page_start index cursor) index),
      if page_start index cursor + nat n < length index
      then Some (last (take (nat n) (drop (page_start index cursor) index))) else None)"
proof -
  let ?k = "page_start index cursor"
  have l: "(0::rat) \<le> of_int n" using assms by simp
  have e: "(of_nat ?k + of_int n :: rat) = of_nat (?k + nat n)"
    using assms by simp
  have e1: "(of_nat ?k + of_int n - 1 :: rat) = of_nat (?k + nat n - 1)"
    using assms by (simp add: of_nat_diff)
  have lt: "((of_nat ?k + of_int n :: rat) < of_nat (length index)) = (?k + nat n < length index)"
    unfolding e by (simp only: of_nat_less_iff)
  have nth: "js_nth index (of_nat ?k + of_int n - 1)
      = Some (last (take (nat n) (drop ?k index)))" if a: "?k + nat n < length index"
  proof -
    have "?k + nat n - 1 < length index" using a by simp
    from js_nth_of_nat [OF this] have "js_nth index (of_nat ?k + of_int n - 1)
        = Some (index ! (?k + nat n - 1))"
      unfolding e1 .
    moreover have "last (take (nat n) (drop ?k index)) = index ! (?k + nat n - 1)"
      using a assms by (simp add: last_take_drop)
    ultimately show ?thesis by simp
  qed
  have fl: "\<lfloor>rat_of_int n\<rfloor> = n" by simp
  show ?thesis
  proof (cases "?k + nat n < length index")
    case True
    then show ?thesis unfolding sliceIndex_eq [OF l] lt fl by (simp only: nth if_True)
  next
    case False
    then show ?thesis unfolding sliceIndex_eq [OF l] lt fl by (simp only: if_False)
  qed
qed

lemma floor_rat_numeral: "\<lfloor>numeral a / numeral b :: rat\<rfloor> = numeral a div numeral b"
  using floor_divide_of_int_eq [of "numeral a" "numeral b", where ?'a = rat] by simp

lemma route_limit_range: "1 \<le> route_limit n \<and> route_limit n \<le> 50"
  by (cases n) (simp_all add: route_limit_def)

lemma route_limit_Finite: "1 \<le> q \<Longrightarrow> q \<le> 50 \<Longrightarrow> route_limit (Finite q) = q"
  by (simp add: route_limit_def)

lemma takeWhile_neq_hit:
  "c \<in> set xs \<Longrightarrow> length (takeWhile (\<lambda>y. y \<noteq> c) xs) < length xs
      \<and> xs ! length (takeWhile (\<lambda>y. y \<noteq> c) xs) = c"
  by (induction xs) auto

lemma page_start_position:
  assumes "cursor = Some c" "c \<noteq> []" "c \<in> set index"
  shows "index ! (page_start index cursor - 1) = c \<and>
         c \<notin> set (take (page_start index cursor - 1) index)"
proof -
  have k: "page_start index cursor - 1 = length (takeWhile (\<lambda>y. y \<noteq> c) index)"
    using assms by (simp add: page_start_def)
  have "index ! length (takeWhile (\<lambda>y. y \<noteq> c) index) = c"
    using assms(3) by (simp add: takeWhile_neq_hit)
  moreover have "c \<notin> set (takeWhile (\<lambda>y. y \<noteq> c) index)"
    by (auto dest: set_takeWhileD)
  ultimately show ?thesis
    unfolding k by (simp add: takeWhile_eq_take [symmetric])
qed

lemma page_start_zero:
  "(cursor = None \<or> cursor = Some [] \<or> (\<exists>c. cursor = Some c \<and> c \<notin> set index))
     = (page_start index cursor = 0)"
  by (cases cursor) (auto simp: page_start_def)

text \<open>
  On the index d5, d4, d3, d2, d1 with limit 2 the three calls give d5 d4 (cursor d4),
  d3 d2 (cursor d2) and d1 (no cursor).
\<close>

lemma sliceIndex_example:
  "sliceIndex [js ''d5'', js ''d4'', js ''d3'', js ''d2'', js ''d1''] 2 None
      = ([js ''d5'', js ''d4''], Some (js ''d4''))
   \<and> sliceIndex [js ''d5'', js ''d4'', js ''d3'', js ''d2'', js ''d1''] 2 (Some (js ''d4''))
      = ([js ''d3'', js ''d2''], Some (js ''d2''))
   \<and> sliceIndex [js ''d5'', js ''d4'', js ''d3'', js ''d2'', js ''d1''] 2 (Some (js ''d2''))
      = ([js ''d1''], None)"
  by (simp add: sliceIndex_def js_slice_def js_nth_def js_def Let_def ToIntegerOrInfinity_def)

text \<open>
  With a limit of at least 0 that is not an integer, no cursor is handed back, whatever
  follows the page: the position \<open>start + limit - 1\<close> is not an integer, and the array
  has nothing there.
\<close>

lemma sliceIndex_fractional:
  assumes "0 \<le> limit" "of_int \<lfloor>limit\<rfloor> \<noteq> limit"
  shows "sliceIndex index limit cursor
           = (take (nat \<lfloor>limit\<rfloor>) (drop (page_start index cursor) index), None)"
  unfolding sliceIndex_eq [OF assms(1)]
  by (simp add: js_nth_fractional [OF fractional_shift [OF assms(2)]])

lemma list_route_fractional:
  assumes "1 \<le> limit" "limit \<le> 50" "of_int \<lfloor>limit\<rfloor> \<noteq> limit"
  shows "list_route s (Finite limit) cursor None hdr =
           (loadViews s (take (nat \<lfloor>limit\<rfloor>)
                           (drop (page_start (getIndex s PUBLIC_INDEX_KEY) cursor)
                                 (getIndex s PUBLIC_INDEX_KEY))) hdr, None)"
proof -
  have l: "0 \<le> limit" using assms(1) by simp
  show ?thesis
    by (simp add: list_route_def listPublicDocuments_def route_limit_Finite [OF assms(1,2)]
        sliceIndex_fractional [OF l assms(3)])
qed



section \<open>Facts about the store's operations\<close>

text \<open>The three families of keys are disjoint.\<close>

lemma key_families_disjoint:
  "DOCUMENT_KEY_PREFIX @ i \<noteq> version_key j v"
  "DOCUMENT_KEY_PREFIX @ i \<noteq> PUBLIC_INDEX_KEY"
  "DOCUMENT_KEY_PREFIX @ i \<noteq> ownerIndexKey t"
  "version_key j v \<noteq> PUBLIC_INDEX_KEY"
  "version_key j v \<noteq> ownerIndexKey t"
  by (simp_all add: DOCUMENT_KEY_PREFIX_def VERSION_KEY_PREFIX_def PUBLIC_INDEX_KEY_def
      OWNER_INDEX_PREFIX_def ownerIndexKey_def version_key_def js_def)

lemma truthy_trimmed: "truthy (trimmed_token t) = (trimmed_token t \<noteq> None)"
  by (auto simp: truthy_def trimmed_token_def split: option.splits)

lemma truthy_Some: "truthy (Some t) = (t \<noteq> [])"
  by (simp add: truthy_def)

lemma truthy_None: "truthy None = False"
  by (simp add: truthy_def)

lemma assertSize_Inl: "(assertSize maxSize cont = Inl e) =
    (e = FILE_TOO_LARGE \<and> maxSize < int (byteLength (TextEncoder_encode cont)))"
  by (auto simp: assertSize_def Let_def)

lemma assertSize_Inr: "(assertSize maxSize cont = Inr u) =
    (int (byteLength (TextEncoder_encode cont)) \<le> maxSize)"
  by (auto simp: assertSize_def Let_def)

lemma updateDocument_too_large:
  "maxSize < int (byteLength (TextEncoder_encode cont)) \<Longrightarrow>
   updateDocument maxSize rt ident cont tok s = (Inl FILE_TOO_LARGE, s)"
  by (simp add: updateDocument_def assertSize_def Let_def)

lemma createDocument_too_large:
  "maxSize < int (byteLength (TextEncoder_encode cont)) \<Longrightarrow>
   createDocument maxSize rt ttl cont tok s = (Inl FILE_TOO_LARGE, s)"
  by (simp add: createDocument_def assertSize_def Let_def)

lemma updateDocument_not_found:
  "int (byteLength (TextEncoder_encode cont)) \<le> maxSize \<Longrightarrow> getRecord s ident = None \<Longrightarrow>
   updateDocument maxSize rt ident cont tok s = (Inl NOT_FOUND, s)"
  by (simp add: updateDocument_def assertSize_def Let_def)

lemma updateDocument_forbidden:
  assumes "int (byteLength (TextEncoder_encode cont)) \<le> maxSize" "getRecord s ident = Some md"
    and "trimmed_token tok \<noteq> trimmed_token (ownerToken md)"
  shows "updateDocument maxSize rt ident cont tok s = (Inl FORBIDDEN, s)"
proof (cases "trimmed_token (ownerToken md)")
  case None
  then show ?thesis using assms
    by (simp add: updateDocument_def assertSize_def Let_def truthy_trimmed truthy_None)
next
  case (Some t)
  then have "truthy (trimmed_token (ownerToken md))"
    using truthy_trimmed [of "ownerToken md"] by simp
  then show ?thesis using assms
    by (simp add: updateDocument_def assertSize_def Let_def)
qed

lemma deleteDocument_forbidden:
  assumes "getRecord s ident = Some md"
    and "trimmed_token tok \<noteq> trimmed_token (ownerToken md)"
  shows "deleteDocument ident tok s = (Inl FORBIDDEN, s)"
proof (cases "trimmed_token (ownerToken md)")
  case None
  then show ?thesis using assms
    by (simp add: deleteDocument_def Let_def truthy_trimmed truthy_None)
next
  case (Some t)
  then have "truthy (trimmed_token (ownerToken md))"
    using truthy_trimmed [of "ownerToken md"] by simp
  then show ?thesis using assms
    by (simp add: deleteDocument_def Let_def)
qed

lemma doc_records_frame [simp]:
  "doc_records (putVersion i v c s) = doc_records s"
  "doc_records (deleteVersion i v s) = doc_records s"
  "doc_records (pushToIndex k i s) = doc_records s"
  "doc_records (removeFromIndex k i s) = doc_records s"
  "doc_records (updatePublicIndex i b s) = doc_records s"
  "doc_records (touchOwnerIndex t i s) = doc_records s"
  by (simp_all add: putVersion_def deleteVersion_def pushToIndex_def removeFromIndex_def
      updatePublicIndex_def touchOwnerIndex_def Let_def split: option.splits)

lemma version_blobs_frame [simp]:
  "version_blobs (putRecord i md s) = version_blobs s"
  "version_blobs (deleteRecord i s) = version_blobs s"
  "version_blobs (pushToIndex k i s) = version_blobs s"
  "version_blobs (removeFromIndex k i s) = version_blobs s"
  "version_blobs (updatePublicIndex i b s) = version_blobs s"
  "version_blobs (touchOwnerIndex t i s) = version_blobs s"
  by (simp_all add: putRecord_def deleteRecord_def pushToIndex_def removeFromIndex_def
      updatePublicIndex_def touchOwnerIndex_def Let_def split: option.splits)

lemma doc_records_deleteVersions [simp]:
  "doc_records (deleteVersions i vs s) = doc_records s"
  by (induction vs arbitrary: s) simp_all

lemma getRecord_frame [simp]:
  "getRecord (putVersion i v c s) = getRecord s"
  "getRecord (deleteVersion i v s) = getRecord s"
  "getRecord (deleteVersions i vs s) = getRecord s"
  "getRecord (pushToIndex k i s) = getRecord s"
  "getRecord (removeFromIndex k i s) = getRecord s"
  "getRecord (updatePublicIndex i b s) = getRecord s"
  "getRecord (touchOwnerIndex t i s) = getRecord s"
  by (simp_all add: getRecord_def fun_eq_iff)

lemma getRecord_putRecord [simp]:
  "getRecord (putRecord i md s) j = (if j = i then Some md else getRecord s j)"
  by (simp add: getRecord_def putRecord_def)

lemma getRecord_deleteRecord [simp]:
  "getRecord (deleteRecord i s) j = (if j = i then None else getRecord s j)"
  by (simp add: getRecord_def deleteRecord_def)

lemma version_blobs_putVersion [simp]:
  "version_blobs (putVersion i v c s) = (version_blobs s)(version_key i v \<mapsto> c)"
  by (simp add: putVersion_def)

lemma updateDocument_success:
  assumes "int (byteLength (TextEncoder_encode cont)) \<le> maxSize"
    and "getRecord s ident = Some md"
    and "trimmed_token tok = trimmed_token (ownerToken md)"
  shows "\<exists>s'. updateDocument maxSize rt ident cont tok s =
            (Inr (toView (updated_metadata rt cont md) (trimmed_token tok),
                  \<lparr>metadata = new_version rt cont, content = cont\<rparr>), s')
          \<and> getRecord s' = (getRecord s)(ident \<mapsto> updated_metadata rt cont md)
          \<and> version_blobs s' = (version_blobs s)(version_key ident (nanoid10 rt) \<mapsto> cont)"
proof (cases "trimmed_token (ownerToken md)")
  case None
  then show ?thesis using assms
    by (simp add: updateDocument_def assertSize_def Let_def truthy_None
        updated_metadata_def new_version_def fun_eq_iff)
next
  case (Some t)
  then have tr: "truthy (trimmed_token (ownerToken md))"
    using truthy_trimmed [of "ownerToken md"] by simp
  have ne: "trimmed_token (ownerToken md) \<noteq> None" using Some by simp
  show ?thesis using assms tr ne
    by (simp add: updateDocument_def assertSize_def Let_def
        updated_metadata_def new_version_def fun_eq_iff)
qed

lemma createDocument_success:
  assumes "int (byteLength (TextEncoder_encode cont)) \<le> maxSize"
  shows "\<exists>s'. createDocument maxSize rt ttl cont tok s =
            (Inr (toView (created_metadata rt ttl cont tok) (trimmed_token tok),
                  \<lparr>metadata = new_version rt cont, content = cont\<rparr>), s')
          \<and> getRecord s' = (getRecord s)(nanoid12 rt \<mapsto> created_metadata rt ttl cont tok)
          \<and> version_blobs s' = (version_blobs s)(version_key (nanoid12 rt) (nanoid10 rt) \<mapsto> cont)"
proof (cases "trimmed_token tok")
  case None
  then show ?thesis using assms
    by (simp add: createDocument_def assertSize_def Let_def truthy_None
        created_metadata_def new_version_def fun_eq_iff)
next
  case (Some t)
  then have tr: "truthy (trimmed_token tok)"
    using truthy_trimmed [of tok] by simp
  have ne: "trimmed_token tok \<noteq> None" using Some by simp
  show ?thesis using assms tr ne
    by (simp add: createDocument_def assertSize_def Let_def
        created_metadata_def new_version_def fun_eq_iff)
qed

lemma deleteDocument_success:
  assumes "getRecord s ident = Some md"
    and "trimmed_token tok = trimmed_token (ownerToken md)"
  shows "\<exists>s'. deleteDocument ident tok s = (Inr (), s')
          \<and> getRecord s' = (getRecord s)(ident := None)"
proof (cases "trimmed_token (ownerToken md)")
  case None
  then show ?thesis using assms
    by (simp add: deleteDocument_def Let_def truthy_None fun_eq_iff)
next
  case (Some t)
  then have tr: "truthy (trimmed_token (ownerToken md))"
    using truthy_trimmed [of "ownerToken md"] by simp
  show ?thesis using assms tr Some
    by (simp add: deleteDocument_def Let_def fun_eq_iff)
qed

section \<open>Ownership check (C1)\<close>

lemma size_hello: "byteLength (TextEncoder_encode (js ''hello'')) = 5"
  by (simp add: byteLength_def TextEncoder_encode_def js_def is_lead_surrogate_def
      is_trail_surrogate_def utf8_of_code_point_def)

lemma size_hello2: "byteLength (TextEncoder_encode (js ''hello2'')) = 6"
  by (simp add: byteLength_def TextEncoder_encode_def js_def is_lead_surrogate_def
      is_trail_surrogate_def utf8_of_code_point_def)

lemma trimmed_T1: "trimmed_token (Some (js ''T1'')) = Some (js ''T1'')"
  by (simp add: trimmed_token_def trim_def is_ws_def js_def)

lemma trimmed_nbsp_T1: "trimmed_token (Some (0xA0 # js ''T1'')) = Some (js ''T1'')"
  by (simp add: trimmed_token_def trim_def is_ws_def js_def)

lemma trimmed_T2: "trimmed_token (Some (js ''T2'')) = Some (js ''T2'')"
  by (simp add: trimmed_token_def trim_def is_ws_def js_def)

lemma trimmed_None: "trimmed_token None = None"
  by (simp add: trimmed_token_def)

lemma getRecord_empty: "getRecord empty_kv = (\<lambda>_. None)"
  by (simp add: getRecord_def empty_kv_def fun_eq_iff)

lemma private_doc_record:
  "getRecord private_doc_state (nanoid12 rt1) =
     Some (created_metadata rt1 (js ''a.md'') (js ''hello'') (Some (js ''T1'')))"
proof -
  have "int (byteLength (TextEncoder_encode (js ''hello''))) \<le> 100" by (simp add: size_hello)
  from createDocument_success [OF this, of rt1 "js ''a.md''" "Some (js ''T1'')" empty_kv]
  show ?thesis by (auto simp: private_doc_state_def)
qed

lemma public_doc_record:
  "getRecord public_doc_state (nanoid12 rt1) =
     Some (created_metadata rt1 (js ''a.md'') (js ''hello'') None)"
proof -
  have "int (byteLength (TextEncoder_encode (js ''hello''))) \<le> 100" by (simp add: size_hello)
  from createDocument_success [OF this, of rt1 "js ''a.md''" None empty_kv]
  show ?thesis by (auto simp: public_doc_state_def)
qed

lemma created_owner [simp]: "ownerToken (created_metadata rt ttl cont tok) = trimmed_token tok"
  by (simp add: created_metadata_def)

text \<open>
  The owner token that \<open>createDocument\<close> stores is absent or a non-empty trimmed
  string, and \<open>updateDocument\<close> keeps it (\<open>updated_metadata\<close> changes other fields
  only): for the records the store writes, truthy and present are the same.
\<close>

lemma created_owner_truthy:
  "truthy (ownerToken (created_metadata rt ttl cont tok))
     = (ownerToken (created_metadata rt ttl cont tok) \<noteq> None)"
  by (simp add: truthy_trimmed)

lemma T2_neq_T1: "js ''T2'' \<noteq> js ''T1''"
  by (simp add: js_def)

text \<open>
  C1, amended: both operations compare the tokens after \<open>trimmed_token\<close> (trimmed, and
  absent when nothing is left), and \<open>updateDocument\<close> checks the size first. For every
  stored document whose trimmed owner token is present, \<open>deleteDocument\<close>, and
  \<open>updateDocument\<close> with content within the size limit, called with a caller token whose
  trimmed value differs from it (an absent or blank caller token included), fail
  \<open>FORBIDDEN\<close> and leave the namespace as it was; for every stored document with no
  owner token (or a blank one) they fail \<open>FORBIDDEN\<close> for every caller token that is
  non-empty after trimming. With content over the limit \<open>updateDocument\<close> fails
  \<open>FILE_TOO_LARGE\<close> whatever the tokens are.
\<close>

theorem ownership_check:
  assumes "getRecord s ident = Some md"
  shows "(trimmed_token (ownerToken md) \<noteq> None
            \<and> trimmed_token tok \<noteq> trimmed_token (ownerToken md) \<longrightarrow>
          deleteDocument ident tok s = (Inl FORBIDDEN, s)
          \<and> (int (byteLength (TextEncoder_encode cont)) \<le> maxSize \<longrightarrow>
               updateDocument maxSize rt ident cont tok s = (Inl FORBIDDEN, s)))
       \<and> (trimmed_token (ownerToken md) = None \<and> trimmed_token tok \<noteq> None \<longrightarrow>
          deleteDocument ident tok s = (Inl FORBIDDEN, s)
          \<and> (int (byteLength (TextEncoder_encode cont)) \<le> maxSize \<longrightarrow>
               updateDocument maxSize rt ident cont tok s = (Inl FORBIDDEN, s)))
       \<and> (maxSize < int (byteLength (TextEncoder_encode cont)) \<longrightarrow>
          updateDocument maxSize rt ident cont tok s = (Inl FILE_TOO_LARGE, s))"
  using assms
  by (auto simp: deleteDocument_forbidden updateDocument_forbidden updateDocument_too_large)

text \<open>
  C1 at concrete inputs: the document of \<open>private_doc_state\<close> is owned by T1 and the
  caller presents T2; the document of \<open>public_doc_state\<close> has no owner and the caller
  presents T1; content of 6 bytes against a limit of 5.
\<close>

theorem ownership_check_witness:
  "deleteDocument (nanoid12 rt1) (Some (js ''T2'')) private_doc_state
      = (Inl FORBIDDEN, private_doc_state)
   \<and> updateDocument 100 rt2 (nanoid12 rt1) (js ''hello2'') (Some (js ''T2'')) private_doc_state
      = (Inl FORBIDDEN, private_doc_state)
   \<and> deleteDocument (nanoid12 rt1) (Some (js ''T1'')) public_doc_state
      = (Inl FORBIDDEN, public_doc_state)
   \<and> updateDocument 100 rt2 (nanoid12 rt1) (js ''hello2'') (Some (js ''T1'')) public_doc_state
      = (Inl FORBIDDEN, public_doc_state)
   \<and> updateDocument 5 rt2 (nanoid12 rt1) (js ''hello2'') (Some (js ''T1'')) private_doc_state
      = (Inl FILE_TOO_LARGE, private_doc_state)"
  using ownership_check [OF private_doc_record, of "Some (js ''T2'')" "js ''hello2''" 100 rt2]
    ownership_check [OF public_doc_record, of "Some (js ''T1'')" "js ''hello2''" 100 rt2]
    ownership_check [OF private_doc_record, of "Some (js ''T1'')" "js ''hello2''" 5 rt2]
    T2_neq_T1
  by (simp add: trimmed_T1 trimmed_T2 trimmed_None size_hello2)

text \<open>
  C1, as stated, fails: the stored owner token is \<open>T1\<close>; the caller's token, a
  no-break space (U+00A0) followed by \<open>T1\<close>, is not equal to it, and both operations go
  through; and with content of 6 bytes against a limit of 5 an update without the
  owner's token fails \<open>FILE_TOO_LARGE\<close>, not \<open>FORBIDDEN\<close>.
\<close>

theorem ownership_check_counterexample:
  "map_option ownerToken (getRecord private_doc_state (nanoid12 rt1)) = Some (Some (js ''T1''))
   \<and> Some (0xA0 # js ''T1'') \<noteq> Some (js ''T1'')
   \<and> fst (deleteDocument (nanoid12 rt1) (Some (0xA0 # js ''T1'')) private_doc_state) = Inr ()
   \<and> \<not> isl (fst (updateDocument 100 rt2 (nanoid12 rt1) (js ''hello2'')
                 (Some (0xA0 # js ''T1'')) private_doc_state))
   \<and> fst (updateDocument 5 rt2 (nanoid12 rt1) (js ''hello2'') None private_doc_state)
       = Inl FILE_TOO_LARGE"
proof -
  have eq: "trimmed_token (Some (0xA0 # js ''T1'')) =
      trimmed_token (ownerToken (created_metadata rt1 (js ''a.md'') (js ''hello'') (Some (js ''T1''))))"
    by (simp add: trimmed_T1 trimmed_nbsp_T1)
  have sz: "int (byteLength (TextEncoder_encode (js ''hello2''))) \<le> 100"
    by (simp add: size_hello2)
  have a: "map_option ownerToken (getRecord private_doc_state (nanoid12 rt1)) = Some (Some (js ''T1''))"
    by (simp add: private_doc_record trimmed_T1)
  have b: "Some (0xA0 # js ''T1'') \<noteq> Some (js ''T1'')" by (simp add: js_def)
  have c: "fst (deleteDocument (nanoid12 rt1) (Some (0xA0 # js ''T1'')) private_doc_state) = Inr ()"
    using deleteDocument_success [OF private_doc_record eq] by auto
  have d: "\<not> isl (fst (updateDocument 100 rt2 (nanoid12 rt1) (js ''hello2'')
                 (Some (0xA0 # js ''T1'')) private_doc_state))"
    using updateDocument_success [OF sz private_doc_record eq, of rt2] by auto
  have e: "fst (updateDocument 5 rt2 (nanoid12 rt1) (js ''hello2'') None private_doc_state)
       = Inl FILE_TOO_LARGE"
    by (simp add: updateDocument_too_large size_hello2)
  from a b c d e show ?thesis by blast
qed

section \<open>Size limit and missing documents (C5, C6)\<close>

lemma getRecord_empty_kv: "getRecord empty_kv ident = None"
  by (simp add: getRecord_def empty_kv_def)

text \<open>
  C6, as stated, fails: no record is stored under \<open>missing\<close>, and an update with
  content of 6 bytes against a limit of 5 fails \<open>FILE_TOO_LARGE\<close>, not \<open>NOT_FOUND\<close>.
\<close>

theorem updateDocument_missing_counterexample:
  "getRecord empty_kv (js ''missing'') = None
   \<and> updateDocument 5 rt2 (js ''missing'') (js ''hello2'') None empty_kv
       = (Inl FILE_TOO_LARGE, empty_kv)"
  by (simp add: getRecord_empty_kv updateDocument_too_large size_hello2)

text \<open>
  C6, amended: \<open>updateDocument\<close> checks the size before it reads the record. For every
  document id under which no record is stored, and every optional owner token, it fails
  \<open>NOT_FOUND\<close> for every content within the size limit and \<open>FILE_TOO_LARGE\<close> for every
  content over it; the namespace stays as it was.
\<close>

theorem updateDocument_missing:
  assumes "getRecord s ident = None"
  shows "updateDocument maxSize rt ident cont tok s =
           (if maxSize < int (byteLength (TextEncoder_encode cont))
            then Inl FILE_TOO_LARGE else Inl NOT_FOUND, s)"
  using assms by (simp add: updateDocument_too_large updateDocument_not_found)

text \<open>
  C6 at concrete inputs: an update of an id that is not stored, with content within the
  limit.
\<close>

theorem updateDocument_missing_witness:
  "getRecord empty_kv (js ''missing'') = None
   \<and> updateDocument 100 rt2 (js ''missing'') (js ''hello2'') (Some (js ''T1'')) empty_kv
       = (Inl NOT_FOUND, empty_kv)"
  using updateDocument_missing [OF getRecord_empty_kv, of 100 rt2 "js ''missing''"
      "js ''hello2''" "Some (js ''T1'')"]
  by (simp add: getRecord_empty_kv size_hello2)

lemma size_e_acute: "byteLength (TextEncoder_encode [0xE9]) = 2"
  by (simp add: byteLength_def TextEncoder_encode_def is_lead_surrogate_def
      is_trail_surrogate_def utf8_of_code_point_def)

lemma size_emoji: "byteLength (TextEncoder_encode [0xD83D, 0xDE00]) = 4"
  by (simp add: byteLength_def TextEncoder_encode_def is_lead_surrogate_def
      is_trail_surrogate_def utf8_of_code_point_def)

text \<open>
  C5: the limit is inclusive. With content whose UTF-8 length equals the limit,
  \<open>createDocument\<close> succeeds, and \<open>updateDocument\<close> does not fail \<open>FILE_TOO_LARGE\<close>
  and succeeds whenever the record exists and the ownership check passes. With content
  over the limit, by one byte or more, both fail \<open>FILE_TOO_LARGE\<close> and hand back the
  namespace they were given: no record, no version, no index and no entry of the log of
  writes has changed. The configured maximum is taken as an integer.
\<close>

theorem size_limit:
  "(int (byteLength (TextEncoder_encode cont)) = maxSize \<longrightarrow>
      (\<exists>r s'. createDocument maxSize rt ttl cont tok s = (Inr r, s'))
      \<and> fst (updateDocument maxSize rt ident cont tok s) \<noteq> Inl FILE_TOO_LARGE
      \<and> (\<forall>md. getRecord s ident = Some md
                \<and> trimmed_token tok = trimmed_token (ownerToken md) \<longrightarrow>
             (\<exists>r s'. updateDocument maxSize rt ident cont tok s = (Inr r, s'))))
   \<and> (maxSize < int (byteLength (TextEncoder_encode cont)) \<longrightarrow>
      createDocument maxSize rt ttl cont tok s = (Inl FILE_TOO_LARGE, s)
      \<and> updateDocument maxSize rt ident cont tok s = (Inl FILE_TOO_LARGE, s))"
proof -
  have a: "\<exists>r s'. createDocument maxSize rt ttl cont tok s = (Inr r, s')"
    if "int (byteLength (TextEncoder_encode cont)) = maxSize"
    using createDocument_success [of cont maxSize rt ttl tok s] that by auto
  have b: "fst (updateDocument maxSize rt ident cont tok s) \<noteq> Inl FILE_TOO_LARGE"
    if "int (byteLength (TextEncoder_encode cont)) = maxSize"
    using that
    by (auto simp: updateDocument_def assertSize_def Let_def split: option.splits)
  have c: "\<exists>r s'. updateDocument maxSize rt ident cont tok s = (Inr r, s')"
    if "int (byteLength (TextEncoder_encode cont)) = maxSize" "getRecord s ident = Some md"
      "trimmed_token tok = trimmed_token (ownerToken md)" for md
    using updateDocument_success [of cont maxSize s ident md tok rt] that by auto
  show ?thesis
    using a b c by (auto simp: createDocument_too_large updateDocument_too_large)
qed

text \<open>
  C5 at concrete inputs: 5 bytes against limits of 5 and 4, 6 bytes against 6 and 5, a
  surrogate pair (4 bytes) against 4, and U+00E9 (2 bytes) against 1.
\<close>

theorem size_limit_witness:
  "(\<exists>r s'. createDocument 5 rt1 (js ''a.md'') (js ''hello'') None empty_kv = (Inr r, s'))
   \<and> (\<exists>r s'. updateDocument 6 rt2 (nanoid12 rt1) (js ''hello2'') (Some (js ''T1''))
                 private_doc_state = (Inr r, s'))
   \<and> createDocument 4 rt1 (js ''a.md'') (js ''hello'') None empty_kv
       = (Inl FILE_TOO_LARGE, empty_kv)
   \<and> updateDocument 5 rt2 (nanoid12 rt1) (js ''hello2'') (Some (js ''T1'')) private_doc_state
       = (Inl FILE_TOO_LARGE, private_doc_state)
   \<and> (\<exists>r s'. createDocument 4 rt1 (js ''a.md'') [0xD83D, 0xDE00] None empty_kv = (Inr r, s'))
   \<and> createDocument 1 rt1 (js ''a.md'') [0xE9] None empty_kv = (Inl FILE_TOO_LARGE, empty_kv)"
  using size_limit [of "js ''hello''" 5 rt1 "js ''a.md''" None empty_kv "js ''none''"]
    size_limit [of "js ''hello2''" 6 rt2 "js ''a.md''" "Some (js ''T1'')" private_doc_state
      "nanoid12 rt1"]
    size_limit [of "js ''hello''" 4 rt1 "js ''a.md''" None empty_kv "js ''none''"]
    size_limit [of "js ''hello2''" 5 rt2 "js ''a.md''" "Some (js ''T1'')" private_doc_state
      "nanoid12 rt1"]
    size_limit [of "[0xD83D, 0xDE00]" 4 rt1 "js ''a.md''" None empty_kv "js ''none''"]
    size_limit [of "[0xE9]" 1 rt1 "js ''a.md''" None empty_kv "js ''none''"]
  by (simp add: size_hello size_hello2 size_e_acute size_emoji private_doc_record trimmed_T1)

section \<open>Views (C2, C9)\<close>

lemma getDocument_eq:
  "getDocument s ident v = map_option (\<lambda>m. toView m v) (getRecord s ident)"
  by (simp add: getDocument_def split: option.splits)

lemma loadViews_views:
  "view \<in> set (loadViews s ids v) \<Longrightarrow>
     \<exists>i m. i \<in> set ids \<and> getRecord s i = Some m \<and> view = toView m v"
  by (induction ids) (auto split: option.splits if_splits)

lemma listPublicDocuments_views:
  "view \<in> set (fst (listPublicDocuments s v limit cursor)) \<Longrightarrow>
     \<exists>i m. getRecord s i = Some m \<and> view = toView m v"
  using loadViews_views [of view s _ v]
  by (fastforce simp: listPublicDocuments_def Let_def split: prod.splits)

lemma listOwnerDocuments_views:
  "view \<in> set (fst (listOwnerDocuments s v limit cursor)) \<Longrightarrow>
     \<exists>i m. getRecord s i = Some m \<and> view = toView m v"
  using loadViews_views [of view s _ v]
  by (fastforce simp: listOwnerDocuments_def Let_def split: prod.splits option.splits if_splits)

lemma toView_flags:
  "isOwner (toView md v) = (truthy (ownerToken md) \<and> v = ownerToken md)"
  "isPrivate (toView md v) = truthy (ownerToken md)"
  by (simp_all add: toView_def Let_def)

lemma toView_cong_owner:
  "truthy o1 = truthy o2 \<Longrightarrow> (v1 = o1) = (v2 = o2) \<Longrightarrow>
   toView (md\<lparr>ownerToken := o1\<rparr>) v1 = toView (md\<lparr>ownerToken := o2\<rparr>) v2"
  by (simp add: toView_def Let_def)

lemma createDocument_view:
  assumes "createDocument maxSize rt ttl cont tok s = (Inr (view, ver), s')"
  shows "\<exists>m. getRecord s' (nanoid12 rt) = Some m \<and> view = toView m (trimmed_token tok)"
proof -
  have sz: "int (byteLength (TextEncoder_encode cont)) \<le> maxSize"
  proof (rule ccontr)
    assume "\<not> ?thesis"
    then have "createDocument maxSize rt ttl cont tok s = (Inl FILE_TOO_LARGE, s)"
      by (simp add: createDocument_too_large)
    with assms show False by simp
  qed
  from createDocument_success [OF sz, of rt ttl tok s] assms show ?thesis by auto
qed

lemma updateDocument_Inr:
  assumes "updateDocument maxSize rt ident cont tok s = (Inr r, s')"
  shows "int (byteLength (TextEncoder_encode cont)) \<le> maxSize
         \<and> (\<exists>md. getRecord s ident = Some md
                  \<and> trimmed_token tok = trimmed_token (ownerToken md))"
proof -
  have sz: "int (byteLength (TextEncoder_encode cont)) \<le> maxSize"
  proof (rule ccontr)
    assume "\<not> ?thesis"
    then have "updateDocument maxSize rt ident cont tok s = (Inl FILE_TOO_LARGE, s)"
      by (simp add: updateDocument_too_large)
    with assms show False by simp
  qed
  have ex: "\<exists>md. getRecord s ident = Some md"
  proof (rule ccontr)
    assume "\<not> ?thesis"
    then have "getRecord s ident = None" by simp
    with sz have "updateDocument maxSize rt ident cont tok s = (Inl NOT_FOUND, s)"
      by (simp add: updateDocument_not_found)
    with assms show False by simp
  qed
  then obtain md where md: "getRecord s ident = Some md" by blast
  have "trimmed_token tok = trimmed_token (ownerToken md)"
  proof (rule ccontr)
    assume "\<not> ?thesis"
    with sz md have "updateDocument maxSize rt ident cont tok s = (Inl FORBIDDEN, s)"
      by (simp add: updateDocument_forbidden)
    with assms show False by simp
  qed
  with sz md show ?thesis by blast
qed

lemma updateDocument_view:
  assumes "updateDocument maxSize rt ident cont tok s = (Inr (view, ver), s')"
  shows "\<exists>m. getRecord s' ident = Some m \<and> view = toView m (trimmed_token tok)"
proof -
  from updateDocument_Inr [OF assms] obtain md where
    sz: "int (byteLength (TextEncoder_encode cont)) \<le> maxSize" and
    md: "getRecord s ident = Some md" and
    eq: "trimmed_token tok = trimmed_token (ownerToken md)" by blast
  from updateDocument_success [OF sz md eq, of rt] assms show ?thesis by auto
qed

text \<open>
  C2, amended: a \<open>DocumentView\<close> has no owner-token field. The \<open>isOwner\<close> of
  \<open>toView\<close> is true exactly when the stored owner token is set (a non-empty string)
  and the token given to \<open>toView\<close> equals it; its \<open>isPrivate\<close> is true exactly when
  the stored owner token is set. Nothing else of the view depends on either token: two
  stored documents that differ in the owner token only give the same view whenever the
  two flags come out the same. Every view that \<open>getDocument\<close>, \<open>createDocument\<close>,
  \<open>updateDocument\<close> and the two list operations hand out is \<open>toView\<close> of a stored
  record: \<open>getDocument\<close> and the list operations give \<open>toView\<close> the viewer's token
  as it came, \<open>createDocument\<close> and \<open>updateDocument\<close> give it the caller's token
  after trimming.
\<close>

theorem view_hides_owner_token:
  "isOwner (toView md v) = (truthy (ownerToken md) \<and> v = ownerToken md)
   \<and> isPrivate (toView md v) = truthy (ownerToken md)
   \<and> (truthy o1 = truthy o2 \<and> (v1 = o1) = (v2 = o2) \<longrightarrow>
        toView (md\<lparr>ownerToken := o1\<rparr>) v1 = toView (md\<lparr>ownerToken := o2\<rparr>) v2)
   \<and> getDocument s ident v = map_option (\<lambda>m. toView m v) (getRecord s ident)
   \<and> (\<forall>view ver s'. createDocument maxSize rt ttl cont tok s = (Inr (view, ver), s') \<longrightarrow>
        (\<exists>m. getRecord s' (nanoid12 rt) = Some m \<and> view = toView m (trimmed_token tok)))
   \<and> (\<forall>view ver s'. updateDocument maxSize rt ident cont tok s = (Inr (view, ver), s') \<longrightarrow>
        (\<exists>m. getRecord s' ident = Some m \<and> view = toView m (trimmed_token tok)))
   \<and> (\<forall>view \<in> set (fst (listPublicDocuments s v limit cursor)).
        \<exists>i m. getRecord s i = Some m \<and> view = toView m v)
   \<and> (\<forall>view \<in> set (fst (listOwnerDocuments s v limit cursor)).
        \<exists>i m. getRecord s i = Some m \<and> view = toView m v)"
  using toView_flags [of md v] toView_cong_owner [of o1 o2 v1 v2 md] getDocument_eq [of s ident v]
    createDocument_view [of maxSize rt ttl cont tok s]
    updateDocument_view [of maxSize rt ident cont tok s]
    listPublicDocuments_views [of _ s v limit cursor]
    listOwnerDocuments_views [of _ s v limit cursor]
  by blast

text \<open>
  C9: for a stored document, the views that \<open>getDocument\<close> gives two viewers are the
  same up to \<open>isOwner\<close>, and when the owner token is set each of them carries the
  stored \<open>rawAccessKey\<close>, whoever the viewer is. With no stored record both calls give
  nothing.
\<close>

theorem getDocument_viewers:
  "(getRecord s ident = None \<longrightarrow>
      getDocument s ident v1 = None \<and> getDocument s ident v2 = None)
   \<and> (\<forall>md. getRecord s ident = Some md \<longrightarrow>
        (\<exists>w1 w2. getDocument s ident v1 = Some w1 \<and> getDocument s ident v2 = Some w2
           \<and> w2 = w1\<lparr>isOwner := isOwner w2\<rparr>
           \<and> (truthy (ownerToken md) \<longrightarrow>
                rawAccessKey w1 = rawAccessKey md \<and> rawAccessKey w2 = rawAccessKey md)))"
  by (auto simp: getDocument_def toView_def Let_def)

lemma ownerIndexKey_neq_public [simp]:
  "ownerIndexKey t \<noteq> PUBLIC_INDEX_KEY" "PUBLIC_INDEX_KEY \<noteq> ownerIndexKey t"
  by (simp_all add: ownerIndexKey_def OWNER_INDEX_PREFIX_def PUBLIC_INDEX_KEY_def js_def)

lemma getIndex_pushToIndex [simp]:
  "getIndex (pushToIndex k i s) k' =
     (if k' = k then i # filter (\<lambda>e. e \<noteq> i) (getIndex s k) else getIndex s k')"
  by (simp add: getIndex_def pushToIndex_def Let_def)

lemma getIndex_removeFromIndex [simp]:
  "getIndex (removeFromIndex k i s) k' =
     (if k' = k then filter (\<lambda>e. e \<noteq> i) (getIndex s k) else getIndex s k')"
  by (simp add: getIndex_def removeFromIndex_def Let_def)

lemma getIndex_frame [simp]:
  "getIndex (putRecord i md s) = getIndex s"
  "getIndex (putVersion i v c s) = getIndex s"
  "getIndex (deleteRecord i s) = getIndex s"
  "getIndex (deleteVersion i v s) = getIndex s"
  by (simp_all add: getIndex_def putRecord_def putVersion_def deleteRecord_def
      deleteVersion_def fun_eq_iff)

lemma getIndex_empty_kv [simp]: "getIndex empty_kv k = []"
  by (simp add: getIndex_def empty_kv_def)

lemma createDocument_public_index:
  assumes "int (byteLength (TextEncoder_encode cont)) \<le> maxSize" "trimmed_token tok = None"
  shows "getIndex (snd (createDocument maxSize rt ttl cont tok s)) PUBLIC_INDEX_KEY =
           nanoid12 rt # filter (\<lambda>e. e \<noteq> nanoid12 rt) (getIndex s PUBLIC_INDEX_KEY)"
  using assms
  by (simp add: createDocument_def assertSize_def Let_def truthy_None updatePublicIndex_def)

lemma createDocument_owner_index:
  assumes "int (byteLength (TextEncoder_encode cont)) \<le> maxSize" "trimmed_token tok = Some t"
  shows "getIndex (snd (createDocument maxSize rt ttl cont tok s)) (ownerIndexKey t) =
           nanoid12 rt # filter (\<lambda>e. e \<noteq> nanoid12 rt) (getIndex s (ownerIndexKey t))"
proof -
  have tr: "truthy (trimmed_token tok)" "t \<noteq> []"
    using assms(2) truthy_trimmed [of tok] by (simp_all add: truthy_Some)
  show ?thesis using assms(1) tr
    by (simp add: createDocument_def assertSize_def Let_def updatePublicIndex_def
        touchOwnerIndex_def assms(2))
qed

lemma public_index: "getIndex public_doc_state PUBLIC_INDEX_KEY = [nanoid12 rt1]"
  by (simp add: public_doc_state_def createDocument_public_index size_hello trimmed_None)

lemma owner_index: "getIndex private_doc_state (ownerIndexKey (js ''T1'')) = [nanoid12 rt1]"
  by (simp add: private_doc_state_def createDocument_owner_index size_hello trimmed_T1)

lemma sliceIndex_single: "sliceIndex [i] 20 None = ([i], None)"
  by (simp add: sliceIndex_def js_slice_def Let_def ToIntegerOrInfinity_def)

lemma T1_nonempty: "js ''T1'' \<noteq> []"
  by (simp add: js_def)

lemma list_public_example:
  "listPublicDocuments public_doc_state None 20 None =
     ([toView (created_metadata rt1 (js ''a.md'') (js ''hello'') None) None], None)"
  by (simp add: listPublicDocuments_def public_index sliceIndex_single public_doc_record
      trimmed_None truthy_None)

lemma list_owner_example:
  "listOwnerDocuments private_doc_state (Some (js ''T1'')) 20 None =
     ([toView (created_metadata rt1 (js ''a.md'') (js ''hello'') (Some (js ''T1'')))
         (Some (js ''T1''))], None)"
  by (simp add: listOwnerDocuments_def owner_index sliceIndex_single private_doc_record
      trimmed_T1 truthy_Some T1_nonempty)

text \<open>
  C2 at concrete inputs: two owner tokens that give the same flags give the same view,
  and the views of a create, an update and the two listings are \<open>toView\<close> of the
  stored record.
\<close>

theorem view_hides_owner_token_witness:
  "toView ((created_metadata rt1 (js ''a.md'') (js ''hello'') None)\<lparr>ownerToken := Some (js ''T1'')\<rparr>)
       (Some (js ''T1''))
     = toView ((created_metadata rt1 (js ''a.md'') (js ''hello'') None)\<lparr>ownerToken := Some (js ''T2'')\<rparr>)
       (Some (js ''T2''))
   \<and> (\<exists>view ver s' m.
         createDocument 100 rt1 (js ''a.md'') (js ''hello'') (Some (js ''T1'')) empty_kv
           = (Inr (view, ver), s')
         \<and> getRecord s' (nanoid12 rt1) = Some m \<and> view = toView m (Some (js ''T1'')))
   \<and> (\<exists>view ver s' m.
         updateDocument 100 rt2 (nanoid12 rt1) (js ''hello2'') (Some (js ''T1'')) private_doc_state
           = (Inr (view, ver), s')
         \<and> getRecord s' (nanoid12 rt1) = Some m \<and> view = toView m (Some (js ''T1'')))
   \<and> fst (listPublicDocuments public_doc_state None 20 None)
       = [toView (created_metadata rt1 (js ''a.md'') (js ''hello'') None) None]
   \<and> (\<exists>i m. getRecord public_doc_state i = Some m
         \<and> toView (created_metadata rt1 (js ''a.md'') (js ''hello'') None) None = toView m None)
   \<and> fst (listOwnerDocuments private_doc_state (Some (js ''T1'')) 20 None)
       = [toView (created_metadata rt1 (js ''a.md'') (js ''hello'') (Some (js ''T1'')))
           (Some (js ''T1''))]
   \<and> (\<exists>i m. getRecord private_doc_state i = Some m
         \<and> toView (created_metadata rt1 (js ''a.md'') (js ''hello'') (Some (js ''T1'')))
              (Some (js ''T1'')) = toView m (Some (js ''T1'')))"
proof -
  let ?mdP = "created_metadata rt1 (js ''a.md'') (js ''hello'') None"
  let ?mdA = "created_metadata rt1 (js ''a.md'') (js ''hello'') (Some (js ''T1''))"
  have t: "truthy (Some (js ''T1'')) = truthy (Some (js ''T2''))"
    by (simp add: truthy_Some js_def)
  have a: "toView (?mdP\<lparr>ownerToken := Some (js ''T1'')\<rparr>) (Some (js ''T1''))
         = toView (?mdP\<lparr>ownerToken := Some (js ''T2'')\<rparr>) (Some (js ''T2''))"
    using view_hides_owner_token [where ?o1.0 = "Some (js ''T1'')" and ?o2.0 = "Some (js ''T2'')"
        and ?v1.0 = "Some (js ''T1'')" and ?v2.0 = "Some (js ''T2'')" and md = ?mdP,
        THEN conjunct2, THEN conjunct2, THEN conjunct1] t
    by simp
  have sz: "int (byteLength (TextEncoder_encode (js ''hello''))) \<le> 100"
    by (simp add: size_hello)
  obtain r1 s1 where c1:
    "createDocument 100 rt1 (js ''a.md'') (js ''hello'') (Some (js ''T1'')) empty_kv = (Inr r1, s1)"
    using createDocument_success [OF sz, of rt1 "js ''a.md''" "Some (js ''T1'')" empty_kv] by blast
  have b: "\<exists>view ver s' m.
         createDocument 100 rt1 (js ''a.md'') (js ''hello'') (Some (js ''T1'')) empty_kv
           = (Inr (view, ver), s')
         \<and> getRecord s' (nanoid12 rt1) = Some m \<and> view = toView m (Some (js ''T1''))"
  proof -
    have "\<forall>view ver s'.
        createDocument 100 rt1 (js ''a.md'') (js ''hello'') (Some (js ''T1'')) empty_kv
          = (Inr (view, ver), s') \<longrightarrow>
        (\<exists>m. getRecord s' (nanoid12 rt1) = Some m
           \<and> view = toView m (trimmed_token (Some (js ''T1''))))"
      using view_hides_owner_token [where maxSize = 100 and rt = rt1 and ttl = "js ''a.md''"
          and cont = "js ''hello''" and tok = "Some (js ''T1'')" and s = empty_kv,
          THEN conjunct2, THEN conjunct2, THEN conjunct2, THEN conjunct2, THEN conjunct1]
      by simp
    with c1 show ?thesis by (cases r1) (auto simp: trimmed_T1)
  qed
  have sz2: "int (byteLength (TextEncoder_encode (js ''hello2''))) \<le> 100"
    by (simp add: size_hello2)
  have eq: "trimmed_token (Some (js ''T1'')) = trimmed_token (ownerToken ?mdA)"
    by (simp add: trimmed_T1)
  obtain r2 s2 where c2:
    "updateDocument 100 rt2 (nanoid12 rt1) (js ''hello2'') (Some (js ''T1'')) private_doc_state
       = (Inr r2, s2)"
    using updateDocument_success [OF sz2 private_doc_record eq, of rt2] by blast
  have c: "\<exists>view ver s' m.
         updateDocument 100 rt2 (nanoid12 rt1) (js ''hello2'') (Some (js ''T1'')) private_doc_state
           = (Inr (view, ver), s')
         \<and> getRecord s' (nanoid12 rt1) = Some m \<and> view = toView m (Some (js ''T1''))"
  proof -
    have "\<forall>view ver s'.
        updateDocument 100 rt2 (nanoid12 rt1) (js ''hello2'') (Some (js ''T1'')) private_doc_state
          = (Inr (view, ver), s') \<longrightarrow>
        (\<exists>m. getRecord s' (nanoid12 rt1) = Some m
           \<and> view = toView m (trimmed_token (Some (js ''T1''))))"
      using view_hides_owner_token [where maxSize = 100 and rt = rt2 and ident = "nanoid12 rt1"
          and cont = "js ''hello2''" and tok = "Some (js ''T1'')" and s = private_doc_state,
          THEN conjunct2, THEN conjunct2, THEN conjunct2, THEN conjunct2, THEN conjunct2, THEN conjunct1]
      by simp
    with c2 show ?thesis by (cases r2) (auto simp: trimmed_T1)
  qed
  have d: "fst (listPublicDocuments public_doc_state None 20 None) = [toView ?mdP None]"
    by (simp add: list_public_example)
  have e: "\<exists>i m. getRecord public_doc_state i = Some m \<and> toView ?mdP None = toView m None"
  proof -
    have "\<forall>view \<in> set (fst (listPublicDocuments public_doc_state None 20 None)).
        \<exists>i m. getRecord public_doc_state i = Some m \<and> view = toView m None"
      using view_hides_owner_token [where s = public_doc_state and v = None and limit = 20
          and cursor = None,
          THEN conjunct2, THEN conjunct2, THEN conjunct2, THEN conjunct2, THEN conjunct2, THEN conjunct2, THEN conjunct1]
      by simp
    with d show ?thesis by simp
  qed
  have f: "fst (listOwnerDocuments private_doc_state (Some (js ''T1'')) 20 None)
       = [toView ?mdA (Some (js ''T1''))]"
    by (simp add: list_owner_example)
  have g: "\<exists>i m. getRecord private_doc_state i = Some m
         \<and> toView ?mdA (Some (js ''T1'')) = toView m (Some (js ''T1''))"
  proof -
    have "\<forall>view \<in> set (fst (listOwnerDocuments private_doc_state (Some (js ''T1'')) 20 None)).
        \<exists>i m. getRecord private_doc_state i = Some m \<and> view = toView m (Some (js ''T1''))"
      using view_hides_owner_token [where s = private_doc_state and v = "Some (js ''T1'')"
          and limit = 20 and cursor = None,
          THEN conjunct2, THEN conjunct2, THEN conjunct2, THEN conjunct2, THEN conjunct2, THEN conjunct2, THEN conjunct2]
      by simp
    with f show ?thesis by simp
  qed
  from a b c d e f g show ?thesis by blast
qed

text \<open>
  C2, as stated, fails: the stored owner token is \<open>T1\<close> and the caller of
  \<open>updateDocument\<close> presents a no-break space (U+00A0) followed by \<open>T1\<close>, which is
  not equal to it. The view that the update hands back has \<open>isOwner\<close> true, since the
  update compares the trimmed token; the stored owner token is still \<open>T1\<close>, and
  \<open>getDocument\<close> with the same token gives a view with \<open>isOwner\<close> false.
\<close>

theorem view_hides_owner_token_counterexample:
  "\<exists>view ver s'.
      updateDocument 100 rt2 (nanoid12 rt1) (js ''hello2'') (Some (0xA0 # js ''T1''))
          private_doc_state = (Inr (view, ver), s')
      \<and> map_option ownerToken (getRecord private_doc_state (nanoid12 rt1))
          = Some (Some (js ''T1''))
      \<and> map_option ownerToken (getRecord s' (nanoid12 rt1)) = Some (Some (js ''T1''))
      \<and> Some (0xA0 # js ''T1'') \<noteq> Some (js ''T1'')
      \<and> isOwner view
      \<and> map_option isOwner (getDocument s' (nanoid12 rt1) (Some (0xA0 # js ''T1'')))
          = Some False"
proof -
  let ?md = "created_metadata rt1 (js ''a.md'') (js ''hello'') (Some (js ''T1''))"
  let ?tok = "Some (0xA0 # js ''T1'')"
  have eq: "trimmed_token ?tok = trimmed_token (ownerToken ?md)"
    by (simp add: trimmed_T1 trimmed_nbsp_T1)
  have sz: "int (byteLength (TextEncoder_encode (js ''hello2''))) \<le> 100"
    by (simp add: size_hello2)
  from updateDocument_success [OF sz private_doc_record eq, of rt2] obtain s' where
    u: "updateDocument 100 rt2 (nanoid12 rt1) (js ''hello2'') ?tok private_doc_state =
          (Inr (toView (updated_metadata rt2 (js ''hello2'') ?md) (trimmed_token ?tok),
                \<lparr>metadata = new_version rt2 (js ''hello2''), content = js ''hello2''\<rparr>), s')"
    and g: "getRecord s' = (getRecord private_doc_state)
              (nanoid12 rt1 \<mapsto> updated_metadata rt2 (js ''hello2'') ?md)"
    by blast
  have own: "ownerToken (updated_metadata rt2 (js ''hello2'') ?md) = Some (js ''T1'')"
    by (simp add: updated_metadata_def trimmed_T1)
  have tr: "truthy (Some (js ''T1''))" by (simp add: truthy_Some T1_nonempty)
  have a: "map_option ownerToken (getRecord private_doc_state (nanoid12 rt1))
      = Some (Some (js ''T1''))"
    by (simp add: private_doc_record trimmed_T1)
  have b: "map_option ownerToken (getRecord s' (nanoid12 rt1)) = Some (Some (js ''T1''))"
    by (simp add: g own trimmed_T1)
  have c: "?tok \<noteq> Some (js ''T1'')" by (simp add: js_def)
  have d: "isOwner (toView (updated_metadata rt2 (js ''hello2'') ?md) (trimmed_token ?tok))"
    using tr by (simp add: toView_flags own trimmed_nbsp_T1 trimmed_T1)
  have e: "map_option isOwner (getDocument s' (nanoid12 rt1) ?tok) = Some False"
    using c by (simp add: getDocument_eq g toView_flags own trimmed_T1)
  from u a b c d e show ?thesis by simp
qed

lemma created_rawAccessKey:
  "rawAccessKey (created_metadata rt ttl cont tok) =
     (if trimmed_token tok \<noteq> None then Some (nanoid16 rt) else None)"
  by (simp add: created_metadata_def)

text \<open>
  C9 at concrete inputs: an anonymous viewer and the owner T1 read the private document;
  the anonymous view carries the raw-access key too.
\<close>

theorem getDocument_viewers_witness:
  "getDocument empty_kv (js ''missing'') None = None
   \<and> (\<exists>w1 w2. getDocument private_doc_state (nanoid12 rt1) None = Some w1
         \<and> getDocument private_doc_state (nanoid12 rt1) (Some (js ''T1'')) = Some w2
         \<and> w2 = w1\<lparr>isOwner := isOwner w2\<rparr>
         \<and> rawAccessKey w1 = Some (nanoid16 rt1) \<and> \<not> isOwner w1 \<and> isOwner w2)"
proof -
  let ?mdA = "created_metadata rt1 (js ''a.md'') (js ''hello'') (Some (js ''T1''))"
  have tr: "truthy (ownerToken ?mdA)"
    by (simp add: trimmed_T1 truthy_Some T1_nonempty)
  have a: "getDocument empty_kv (js ''missing'') None = None"
    using getDocument_viewers [of empty_kv "js ''missing''" None None]
    by (simp add: getRecord_empty_kv)
  from getDocument_viewers [of private_doc_state "nanoid12 rt1" None "Some (js ''T1'')"]
  obtain w1 w2 where w:
    "getDocument private_doc_state (nanoid12 rt1) None = Some w1"
    "getDocument private_doc_state (nanoid12 rt1) (Some (js ''T1'')) = Some w2"
    "w2 = w1\<lparr>isOwner := isOwner w2\<rparr>" "rawAccessKey w1 = rawAccessKey ?mdA"
    using private_doc_record tr by auto
  have k: "rawAccessKey w1 = Some (nanoid16 rt1)"
    using w(4) by (simp add: created_rawAccessKey trimmed_T1)
  have "w1 = toView ?mdA None" using w(1)
    by (simp add: getDocument_eq private_doc_record)
  then have o1: "\<not> isOwner w1"
    by (simp add: toView_flags trimmed_T1)
  have "w2 = toView ?mdA (Some (js ''T1''))" using w(2)
    by (simp add: getDocument_eq private_doc_record)
  then have o2: "isOwner w2" using tr
    by (simp add: toView_flags trimmed_T1)
  from a w k o1 o2 show ?thesis by blast
qed

section \<open>Listing through the route\<close>

lemma ids_differ: "nanoid12 rt2 \<noteq> nanoid12 rt1"
  by (simp add: rt1_def rt2_def js_def)

lemma two_public_index:
  "getIndex two_public_state PUBLIC_INDEX_KEY = [nanoid12 rt2, nanoid12 rt1]"
  using ids_differ
  by (simp add: two_public_state_def createDocument_public_index size_hello2 trimmed_None
      public_index)

lemma two_public_record:
  "getRecord two_public_state (nanoid12 rt2) =
     Some (created_metadata rt2 (js ''b.md'') (js ''hello2'') None)"
proof -
  have "int (byteLength (TextEncoder_encode (js ''hello2''))) \<le> 100" by (simp add: size_hello2)
  from createDocument_success [OF this, of rt2 "js ''b.md''" None public_doc_state]
  show ?thesis by (auto simp: two_public_state_def)
qed

text \<open>
  Two unowned documents, the later one first in the public index. \<open>GET /api/documents\<close>
  with \<open>limit=1\<close> gives the later document and its id as the cursor; with \<open>limit=1.5\<close>
  it gives the same page and no cursor, although the earlier document follows.
\<close>

lemma list_route_example:
  "list_route two_public_state (Finite 1) None None None
     = ([toView (created_metadata rt2 (js ''b.md'') (js ''hello2'') None) None],
        Some (nanoid12 rt2))
   \<and> list_route two_public_state (Finite (3 / 2)) None None None
     = ([toView (created_metadata rt2 (js ''b.md'') (js ''hello2'') None) None], None)"
proof -
  have a: "sliceIndex [nanoid12 rt2, nanoid12 rt1] 1 None = ([nanoid12 rt2], Some (nanoid12 rt2))"
    by (simp add: sliceIndex_def js_slice_def js_nth_def Let_def ToIntegerOrInfinity_def)
  have f: "\<lfloor>1 / 2 :: rat\<rfloor> = 0" by (rule floor_unique) simp_all
  have b: "sliceIndex [nanoid12 rt2, nanoid12 rt1] (3 / 2) None = ([nanoid12 rt2], None)"
    by (simp add: sliceIndex_def js_slice_def js_nth_def Let_def ToIntegerOrInfinity_def
        floor_rat_numeral f)
  have r: "route_limit (Finite 1) = 1" "route_limit (Finite (3 / 2)) = 3 / 2"
    by (simp_all add: route_limit_def)
  show ?thesis
    by (simp add: list_route_def listPublicDocuments_def two_public_index r a b
        two_public_record trimmed_None truthy_None)
qed

section \<open>Version sequence (C4)\<close>

lemma updated_versions [simp]:
  "versions (updated_metadata rt cont md) = new_version rt cont # versions md"
  by (simp add: updated_metadata_def)

lemma created_versions [simp]:
  "versions (created_metadata rt ttl cont tok) = [new_version rt cont]"
  by (simp add: created_metadata_def)

lemma toView_versions [simp]: "versions (toView md v) = versions md"
  by (simp add: toView_def Let_def)

lemma toView_doc_id [simp]: "doc_id (toView md v) = doc_id md"
  by (simp add: toView_def Let_def)

lemma created_doc_id [simp]: "doc_id (created_metadata rt ttl cont tok) = nanoid12 rt"
  by (simp add: created_metadata_def)

lemma createDocument_Inr:
  assumes "createDocument maxSize rt ttl cont tok s = (Inr (view, ver), s')"
  shows "view = toView (created_metadata rt ttl cont tok) (trimmed_token tok)
         \<and> ver = \<lparr>metadata = new_version rt cont, content = cont\<rparr>
         \<and> getRecord s' = (getRecord s)(nanoid12 rt \<mapsto> created_metadata rt ttl cont tok)
         \<and> version_blobs s' = (version_blobs s)(version_key (nanoid12 rt) (nanoid10 rt) \<mapsto> cont)"
proof -
  have sz: "int (byteLength (TextEncoder_encode cont)) \<le> maxSize"
  proof (rule ccontr)
    assume "\<not> ?thesis"
    then have "createDocument maxSize rt ttl cont tok s = (Inl FILE_TOO_LARGE, s)"
      by (simp add: createDocument_too_large)
    with assms show False by simp
  qed
  from createDocument_success [OF sz, of rt ttl tok s] assms show ?thesis by auto
qed

lemma updateDocument_Inr_result:
  assumes "updateDocument maxSize rt ident cont tok s = (Inr (view, ver), s')"
    and "getRecord s ident = Some md"
  shows "view = toView (updated_metadata rt cont md) (trimmed_token tok)
         \<and> ver = \<lparr>metadata = new_version rt cont, content = cont\<rparr>
         \<and> getRecord s' = (getRecord s)(ident \<mapsto> updated_metadata rt cont md)
         \<and> version_blobs s' = (version_blobs s)(version_key ident (nanoid10 rt) \<mapsto> cont)"
proof -
  from updateDocument_Inr [OF assms(1)] assms(2) have
    sz: "int (byteLength (TextEncoder_encode cont)) \<le> maxSize" and
    eq: "trimmed_token tok = trimmed_token (ownerToken md)" by auto
  from updateDocument_success [OF sz assms(2) eq, of rt] assms(1) show ?thesis by auto
qed

lemma successful_updates_versions:
  assumes "getRecord s ident = Some md"
    and "successful_updates maxSize ident calls s = Some (added, sN)"
  shows "\<exists>mdN. getRecord sN ident = Some mdN \<and> versions mdN = added @ versions md
           \<and> added = rev (map (\<lambda>(rt, cont, tok). new_version rt cont) calls)"
  using assms
proof (induction calls arbitrary: s md added)
  case Nil
  then show ?case by simp
next
  case (Cons call calls)
  obtain rt cont tok where call: "call = (rt, cont, tok)" by (cases call)
  from Cons.prems(2) call obtain view ver s' added' where
    u: "updateDocument maxSize rt ident cont tok s = (Inr (view, ver), s')" and
    r: "successful_updates maxSize ident calls s' = Some (added', sN)" and
    a: "added = added' @ [metadata ver]"
    by (auto split: prod.splits sum.splits option.splits)
  from updateDocument_Inr_result [OF u Cons.prems(1)] have
    ver: "metadata ver = new_version rt cont" and
    g: "getRecord s' ident = Some (updated_metadata rt cont md)"
    by auto
  from Cons.IH [OF g r] obtain mdN where
    "getRecord sN ident = Some mdN"
    "versions mdN = added' @ versions (updated_metadata rt cont md)"
    "added' = rev (map (\<lambda>(rt, cont, tok). new_version rt cont) calls)"
    by blast
  then show ?case using a ver call by simp
qed

text \<open>
  C4: \<open>createDocument\<close> stores a version sequence of exactly one entry, the version it
  returns. A successful \<open>updateDocument\<close> stores the version it returns in front of the
  sequence that was stored, which is otherwise kept as it was. So after a document is
  created and N updates of it succeed, the stored sequence has N + 1 entries: the
  versions of the updates, latest first, then the version of the creation; its first
  entry is the version of the last update.
\<close>

theorem versions_prepended:
  "(createDocument maxSize rt0 ttl cont0 tok0 s = (Inr (view0, ver0), s0) \<longrightarrow>
      (\<exists>md0. getRecord s0 (doc_id view0) = Some md0 \<and> versions md0 = [metadata ver0]
          \<and> versions view0 = [metadata ver0]))
   \<and> (getRecord s ident = Some md
        \<and> updateDocument maxSize rt ident cont tok s = (Inr (view, ver), s') \<longrightarrow>
      (\<exists>md'. getRecord s' ident = Some md' \<and> versions md' = metadata ver # versions md
          \<and> versions view = versions md'))
   \<and> (createDocument maxSize rt0 ttl cont0 tok0 s = (Inr (view0, ver0), s0)
        \<and> successful_updates maxSize (doc_id view0) calls s0 = Some (added, sN) \<longrightarrow>
      (\<exists>mdN. getRecord sN (doc_id view0) = Some mdN
          \<and> versions mdN = added @ [metadata ver0]
          \<and> length added = length calls
          \<and> length (versions mdN) = length calls + 1
          \<and> (calls \<noteq> [] \<longrightarrow>
               (case last calls of (rtL, contL, tokL) \<Rightarrow>
                  hd (versions mdN) = new_version rtL contL))))"
proof -
  have a: "\<exists>md0. getRecord s0 (doc_id view0) = Some md0 \<and> versions md0 = [metadata ver0]
          \<and> versions view0 = [metadata ver0]"
    if "createDocument maxSize rt0 ttl cont0 tok0 s = (Inr (view0, ver0), s0)"
    using createDocument_Inr [OF that] by simp
  have b: "\<exists>md'. getRecord s' ident = Some md' \<and> versions md' = metadata ver # versions md
          \<and> versions view = versions md'"
    if "getRecord s ident = Some md"
      "updateDocument maxSize rt ident cont tok s = (Inr (view, ver), s')"
    using updateDocument_Inr_result [OF that(2) that(1)] by simp
  have c: "\<exists>mdN. getRecord sN (doc_id view0) = Some mdN
          \<and> versions mdN = added @ [metadata ver0]
          \<and> length added = length calls
          \<and> length (versions mdN) = length calls + 1
          \<and> (calls \<noteq> [] \<longrightarrow>
               (case last calls of (rtL, contL, tokL) \<Rightarrow>
                  hd (versions mdN) = new_version rtL contL))"
    if c0: "createDocument maxSize rt0 ttl cont0 tok0 s = (Inr (view0, ver0), s0)"
      and r: "successful_updates maxSize (doc_id view0) calls s0 = Some (added, sN)"
  proof -
    from a [OF c0] obtain md0 where
      g: "getRecord s0 (doc_id view0) = Some md0" and v: "versions md0 = [metadata ver0]"
      by blast
    from successful_updates_versions [OF g r] obtain mdN where
      n: "getRecord sN (doc_id view0) = Some mdN" "versions mdN = added @ versions md0"
        "added = rev (map (\<lambda>(rt, cont, tok). new_version rt cont) calls)"
      by blast
    have len: "length added = length calls" using n(3) by simp
    have hd: "calls \<noteq> [] \<longrightarrow>
               (case last calls of (rtL, contL, tokL) \<Rightarrow>
                  hd (versions mdN) = new_version rtL contL)"
    proof
      assume ne: "calls \<noteq> []"
      then have "hd added = (\<lambda>(rt, cont, tok). new_version rt cont) (last calls)"
        using n(3) by (simp add: hd_rev last_map)
      moreover have "added \<noteq> []" using ne n(3) by simp
      ultimately show "case last calls of (rtL, contL, tokL) \<Rightarrow>
                  hd (versions mdN) = new_version rtL contL"
        using n(2) by (simp split: prod.splits)
    qed
    from n v len hd show ?thesis by simp
  qed
  from a b c show ?thesis by blast
qed

lemma updated_ownerToken [simp]:
  "ownerToken (updated_metadata rt cont md) = ownerToken md"
  by (simp add: updated_metadata_def)

text \<open>
  C4 at concrete inputs: a private document is created and updated twice by its owner;
  three versions are stored, the latest first.
\<close>

theorem versions_prepended_witness:
  "\<exists>view0 ver0 s0 added sN mdN.
      createDocument 100 rt1 (js ''a.md'') (js ''hello'') (Some (js ''T1'')) empty_kv
        = (Inr (view0, ver0), s0)
      \<and> doc_id view0 = nanoid12 rt1
      \<and> successful_updates 100 (nanoid12 rt1)
            [(rt2, js ''hello2'', Some (js ''T1'')), (rt3, js ''hello'', Some (js ''T1''))] s0
          = Some (added, sN)
      \<and> getRecord sN (nanoid12 rt1) = Some mdN
      \<and> versions mdN = [new_version rt3 (js ''hello''), new_version rt2 (js ''hello2''),
                          new_version rt1 (js ''hello'')]
      \<and> length (versions mdN) = 3
      \<and> hd (versions mdN) = new_version rt3 (js ''hello'')"
proof -
  let ?md0 = "created_metadata rt1 (js ''a.md'') (js ''hello'') (Some (js ''T1''))"
  let ?md1 = "updated_metadata rt2 (js ''hello2'') ?md0"
  let ?calls = "[(rt2, js ''hello2'', Some (js ''T1'')), (rt3, js ''hello'', Some (js ''T1''))]"
  have sz: "int (byteLength (TextEncoder_encode (js ''hello''))) \<le> 100"
    by (simp add: size_hello)
  have sz2: "int (byteLength (TextEncoder_encode (js ''hello2''))) \<le> 100"
    by (simp add: size_hello2)
  obtain s0 where c0:
    "createDocument 100 rt1 (js ''a.md'') (js ''hello'') (Some (js ''T1'')) empty_kv
       = (Inr (toView ?md0 (trimmed_token (Some (js ''T1''))),
               \<lparr>metadata = new_version rt1 (js ''hello''), content = js ''hello''\<rparr>), s0)"
    and g0: "getRecord s0 = (getRecord empty_kv)(nanoid12 rt1 \<mapsto> ?md0)"
    using createDocument_success [OF sz, of rt1 "js ''a.md''" "Some (js ''T1'')" empty_kv] by blast
  have r0: "getRecord s0 (nanoid12 rt1) = Some ?md0" using g0 by simp
  have eq0: "trimmed_token (Some (js ''T1'')) = trimmed_token (ownerToken ?md0)"
    by (simp add: trimmed_T1)
  obtain s1 where u1:
    "updateDocument 100 rt2 (nanoid12 rt1) (js ''hello2'') (Some (js ''T1'')) s0
       = (Inr (toView ?md1 (trimmed_token (Some (js ''T1''))),
               \<lparr>metadata = new_version rt2 (js ''hello2''), content = js ''hello2''\<rparr>), s1)"
    and g1: "getRecord s1 = (getRecord s0)(nanoid12 rt1 \<mapsto> ?md1)"
    using updateDocument_success [OF sz2 r0 eq0, of rt2] by blast
  have r1: "getRecord s1 (nanoid12 rt1) = Some ?md1" using g1 by simp
  have eq1: "trimmed_token (Some (js ''T1'')) = trimmed_token (ownerToken ?md1)"
    by (simp add: trimmed_T1)
  obtain s2 where u2:
    "updateDocument 100 rt3 (nanoid12 rt1) (js ''hello'') (Some (js ''T1'')) s1
       = (Inr (toView (updated_metadata rt3 (js ''hello'') ?md1) (trimmed_token (Some (js ''T1''))),
               \<lparr>metadata = new_version rt3 (js ''hello''), content = js ''hello''\<rparr>), s2)"
    using updateDocument_success [OF sz r1 eq1, of rt3] by blast
  have run: "successful_updates 100 (nanoid12 rt1) ?calls s0
      = Some ([new_version rt3 (js ''hello''), new_version rt2 (js ''hello2'')], s2)"
    by (simp add: u1 u2)
  have id0: "doc_id (toView ?md0 (trimmed_token (Some (js ''T1'')))) = nanoid12 rt1"
    by simp
  from versions_prepended [where maxSize = 100 and ?rt0.0 = rt1 and ttl = "js ''a.md''"
      and ?cont0.0 = "js ''hello''" and ?tok0.0 = "Some (js ''T1'')" and s = empty_kv
      and ?view0.0 = "toView ?md0 (trimmed_token (Some (js ''T1'')))"
      and ?ver0.0 = "\<lparr>metadata = new_version rt1 (js ''hello''), content = js ''hello''\<rparr>"
      and ?s0.0 = s0 and calls = ?calls
      and added = "[new_version rt3 (js ''hello''), new_version rt2 (js ''hello2'')]"
      and sN = s2, THEN conjunct2, THEN conjunct2]
  obtain mdN where n: "getRecord s2 (nanoid12 rt1) = Some mdN"
    "versions mdN = [new_version rt3 (js ''hello''), new_version rt2 (js ''hello2'')]
        @ [new_version rt1 (js ''hello'')]"
    "length (versions mdN) = length ?calls + 1"
    "hd (versions mdN) = new_version rt3 (js ''hello'')"
    using c0 run id0 by auto
  from c0 id0 run n show ?thesis
    by (intro exI [of _ "toView ?md0 (trimmed_token (Some (js ''T1'')))"]
        exI [of _ "\<lparr>metadata = new_version rt1 (js ''hello''), content = js ''hello''\<rparr>"]
        exI [of _ s0] exI [of _ "[new_version rt3 (js ''hello''), new_version rt2 (js ''hello2'')]"]
        exI [of _ s2] exI [of _ mdN]) simp
qed

section \<open>Deleting through the route (C10)\<close>

lemma trim_Nil [simp]: "trim [] = []"
  by (simp add: trim_def)

lemma trimmed_token_truthy: "trimmed_token t \<noteq> None \<Longrightarrow> truthy t"
  by (cases t) (auto simp: trimmed_token_def truthy_def split: if_splits)

lemma delete_route_no_header:
  "\<not> truthy hdr \<Longrightarrow> delete_route ident hdr s = (Inl (forbidden ''owner token required''), s)"
  by (simp add: delete_route_def)

lemma delete_route_forbidden:
  assumes "getRecord s ident = Some md" "trimmed_token hdr \<noteq> trimmed_token (ownerToken md)"
    "truthy hdr"
  shows "delete_route ident hdr s = (Inl (forbidden ''owner token required''), s)"
  using deleteDocument_forbidden [OF assms(1,2)] assms(3)
  by (simp add: delete_route_def)

lemma nbsp_token: "truthy (Some [0xA0])" "trimmed_token (Some [0xA0]) = None"
  by (simp_all add: truthy_def trimmed_token_def trim_def is_ws_def)

text \<open>
  What the route and the store refuse: the route fails \<open>FORBIDDEN\<close> whenever the
  request carries no owner-token header, or an empty one, and the namespace is as it
  was: the store is not called. The store's \<open>deleteDocument\<close> fails \<open>FORBIDDEN\<close>
  whenever a token that is non-empty after trimming is supplied for a document with no
  owner. So a request without the header, or with a header that is non-empty after
  trimming, does not delete an unowned document through the route, while
  \<open>deleteDocument\<close> called with no token deletes it.
\<close>

lemma public_delete:
  "(\<not> truthy hdr \<longrightarrow>
      delete_route ident hdr s = (Inl (forbidden ''owner token required''), s))
   \<and> (getRecord s ident = Some md \<and> trimmed_token (ownerToken md) = None \<longrightarrow>
        (trimmed_token tok \<noteq> None \<longrightarrow> deleteDocument ident tok s = (Inl FORBIDDEN, s))
        \<and> (trimmed_token hdr \<noteq> None \<longrightarrow>
             delete_route ident hdr s = (Inl (forbidden ''owner token required''), s))
        \<and> (\<exists>s'. deleteDocument ident None s = (Inr (), s') \<and> getRecord s' ident = None))"
proof -
  have a: "delete_route ident hdr s = (Inl (forbidden ''owner token required''), s)"
    if "\<not> truthy hdr"
    using that by (rule delete_route_no_header)
  have b: "deleteDocument ident tok s = (Inl FORBIDDEN, s)"
    if "getRecord s ident = Some md" "trimmed_token (ownerToken md) = None"
      "trimmed_token tok \<noteq> None"
    using deleteDocument_forbidden [OF that(1), of tok] that(2,3) by simp
  have c: "delete_route ident hdr s = (Inl (forbidden ''owner token required''), s)"
    if "getRecord s ident = Some md" "trimmed_token (ownerToken md) = None"
      "trimmed_token hdr \<noteq> None"
    using delete_route_forbidden [OF that(1), of hdr] that(2,3) trimmed_token_truthy [of hdr]
    by simp
  have d: "\<exists>s'. deleteDocument ident None s = (Inr (), s') \<and> getRecord s' ident = None"
    if "getRecord s ident = Some md" "trimmed_token (ownerToken md) = None"
    using deleteDocument_success [OF that(1), of None] that(2) by (auto simp: trimmed_None)
  from a b c d show ?thesis by blast
qed

text \<open>
  At concrete inputs: the unowned document of \<open>public_doc_state\<close>, a request without
  the header and a request with the header T1.
\<close>

lemma public_delete_example:
  "delete_route (nanoid12 rt1) None public_doc_state
     = (Inl (forbidden ''owner token required''), public_doc_state)
   \<and> deleteDocument (nanoid12 rt1) (Some (js ''T1'')) public_doc_state
       = (Inl FORBIDDEN, public_doc_state)
   \<and> delete_route (nanoid12 rt1) (Some (js ''T1'')) public_doc_state
       = (Inl (forbidden ''owner token required''), public_doc_state)
   \<and> (\<exists>s'. deleteDocument (nanoid12 rt1) None public_doc_state = (Inr (), s')
          \<and> getRecord s' (nanoid12 rt1) = None)"
  using public_delete [of None "nanoid12 rt1" public_doc_state
      "created_metadata rt1 (js ''a.md'') (js ''hello'') None" "Some (js ''T1'')"]
    public_delete [of "Some (js ''T1'')" "nanoid12 rt1" public_doc_state
      "created_metadata rt1 (js ''a.md'') (js ''hello'') None" "Some (js ''T1'')"]
  by (simp add: public_doc_record trimmed_None trimmed_T1 truthy_None)

text \<open>
  C10 fails on the code for a header that is blank: the route tests the header as it
  came, the store trims it. A header of white space only, such as the single character
  U+00A0, is truthy for the route and no token for the store, which finds the token of
  the caller equal to the absent owner token; the route deletes the unowned document.
\<close>

theorem public_delete_blank_header:
  assumes "getRecord s ident = Some md" and "trimmed_token (ownerToken md) = None"
    and "truthy hdr" and "trimmed_token hdr = None"
  shows "\<exists>s'. deleteDocument ident hdr s = (Inr (), s')
           \<and> delete_route ident hdr s = (Inr (), s')
           \<and> getRecord s' ident = None"
proof -
  have eq: "trimmed_token hdr = trimmed_token (ownerToken md)"
    using assms(2,4) by simp
  from deleteDocument_success [OF assms(1) eq] obtain s' where
    d: "deleteDocument ident hdr s = (Inr (), s')"
    and g: "getRecord s' = (getRecord s)(ident := None)"
    by blast
  have r: "delete_route ident hdr s = (Inr (), s')"
    using d assms(3) by (simp add: delete_route_def)
  from d r g show ?thesis by simp
qed

text \<open>
  C10 at concrete inputs: the unowned document of \<open>public_doc_state\<close> and a request
  whose header holds the single character U+00A0.
\<close>

theorem public_delete_blank_header_witness:
  "map_option ownerToken (getRecord public_doc_state (nanoid12 rt1)) = Some None
   \<and> truthy (Some [0xA0])
   \<and> (\<exists>s'. deleteDocument (nanoid12 rt1) (Some [0xA0]) public_doc_state = (Inr (), s')
          \<and> delete_route (nanoid12 rt1) (Some [0xA0]) public_doc_state = (Inr (), s')
          \<and> getRecord s' (nanoid12 rt1) = None)"
proof -
  let ?md = "created_metadata rt1 (js ''a.md'') (js ''hello'') None"
  have a: "map_option ownerToken (getRecord public_doc_state (nanoid12 rt1)) = Some None"
    by (simp add: public_doc_record trimmed_None)
  have o: "trimmed_token (ownerToken ?md) = None"
    by (simp add: trimmed_None)
  show ?thesis
    using public_delete_blank_header [OF public_doc_record o nbsp_token] a nbsp_token(1)
    by simp
qed

section \<open>Raw-access key rotation (C3)\<close>

lemma new_version_id [simp]: "versionId (new_version rt cont) = nanoid10 rt"
  by (simp add: new_version_def)

lemma updated_rawAccessKey:
  "rawAccessKey (updated_metadata rt cont md) =
     (if trimmed_token (ownerToken md) \<noteq> None then Some (nanoid16 rt) else rawAccessKey md)"
  by (simp add: updated_metadata_def)

lemma toView_rawAccessKey:
  "rawAccessKey (toView md v) = (if truthy (ownerToken md) then rawAccessKey md else None)"
  by (simp add: toView_def Let_def)

text \<open>
  The namespace after a successful update of an owned document, as the raw route reads
  it: the record holds the new key and the new version in front, and the blob of the new
  version is the new content.
\<close>

lemma raw_route_after_update:
  assumes g: "getRecord s' ident = Some (updated_metadata rt cont md)"
    and b: "version_blobs s' (version_key ident (nanoid10 rt)) = Some cont"
    and own: "trimmed_token (ownerToken md) \<noteq> None"
  shows "hdr \<noteq> ownerToken md \<Longrightarrow> key \<noteq> Some (nanoid16 rt) \<Longrightarrow>
           raw_route s' ident versionIdQ key hdr = Inl (forbidden ''owner token required'')"
    and "nanoid16 rt \<noteq> [] \<Longrightarrow>
           raw_route s' ident None (Some (nanoid16 rt)) hdr =
             (if cont = [] then Inl notFound else Inr cont)"
proof -
  have tr: "truthy (ownerToken md)" using own by (rule trimmed_token_truthy)
  show "raw_route s' ident versionIdQ key hdr = Inl (forbidden ''owner token required'')"
    if "hdr \<noteq> ownerToken md" "key \<noteq> Some (nanoid16 rt)"
    using that g own tr
    by (simp add: raw_route_def getDocument_eq toView_flags toView_rawAccessKey
        updated_rawAccessKey)
  show "raw_route s' ident None (Some (nanoid16 rt)) hdr =
             (if cont = [] then Inl notFound else Inr cont)"
    if "nanoid16 rt \<noteq> []"
    using that g b own tr
    by (simp add: raw_route_def getDocument_eq toView_flags toView_rawAccessKey
        updated_rawAccessKey truthy_Some truthy_None getVersion_def)
qed

text \<open>
  The rotation itself, for content that is not empty: after a successful update of an
  owned document the stored key is the newly generated one; a request for the raw
  content that presents any other key, the previous one included when the new key
  differs from it, and whose token header is not the owner token, is refused; a request
  that presents the new key gets the new content.
\<close>

lemma rawAccessKey_rotation:
  assumes "int (byteLength (TextEncoder_encode cont)) \<le> maxSize"
    and "getRecord s ident = Some md"
    and "trimmed_token (ownerToken md) \<noteq> None"
    and "trimmed_token tok = trimmed_token (ownerToken md)"
    and "nanoid16 rt \<noteq> []" and "rawAccessKey md \<noteq> Some (nanoid16 rt)"
    and "cont \<noteq> []" and "hdr \<noteq> ownerToken md"
  shows "\<exists>view ver s'. updateDocument maxSize rt ident cont tok s = (Inr (view, ver), s')
           \<and> map_option rawAccessKey (getRecord s' ident) = Some (Some (nanoid16 rt))
           \<and> rawAccessKey view = Some (nanoid16 rt)
           \<and> raw_route s' ident None (rawAccessKey md) hdr
               = Inl (forbidden ''owner token required'')
           \<and> raw_route s' ident None (Some (nanoid16 rt)) hdr = Inr cont"
proof -
  from updateDocument_success [OF assms(1,2,4), of rt] obtain s' where
    u: "updateDocument maxSize rt ident cont tok s =
          (Inr (toView (updated_metadata rt cont md) (trimmed_token tok),
                \<lparr>metadata = new_version rt cont, content = cont\<rparr>), s')"
    and g: "getRecord s' ident = Some (updated_metadata rt cont md)"
    and b: "version_blobs s' (version_key ident (nanoid10 rt)) = Some cont"
    by auto
  have tr: "truthy (ownerToken md)" using assms(3) by (rule trimmed_token_truthy)
  have k: "rawAccessKey (toView (updated_metadata rt cont md) (trimmed_token tok))
      = Some (nanoid16 rt)"
    using assms(3) tr by (simp add: toView_rawAccessKey updated_rawAccessKey)
  have old: "raw_route s' ident None (rawAccessKey md) hdr
      = Inl (forbidden ''owner token required'')"
    using raw_route_after_update(1) [OF g b assms(3) assms(8) assms(6)] .
  have new: "raw_route s' ident None (Some (nanoid16 rt)) hdr = Inr cont"
    using raw_route_after_update(2) [OF g b assms(3) assms(5)] assms(7) by simp
  from u g k old new assms(3) show ?thesis
    by (simp add: updated_rawAccessKey)
qed

text \<open>
  C3 fails on the code for an update whose content is the empty string: \<open>assertSize\<close>
  and the route of the update accept it, the key is rotated and the previous key is
  refused, but \<open>getVersion\<close> takes the empty blob of the new version for a missing one,
  so the request that presents the new key is answered \<open>Not found\<close> instead of being
  given the content.
\<close>

theorem rawAccessKey_rotation_empty_content:
  assumes "0 \<le> maxSize"
    and "getRecord s ident = Some md"
    and "trimmed_token (ownerToken md) \<noteq> None"
    and "trimmed_token tok = trimmed_token (ownerToken md)"
    and "nanoid16 rt \<noteq> []"
  shows "\<exists>view ver s'. updateDocument maxSize rt ident [] tok s = (Inr (view, ver), s')
           \<and> content ver = []
           \<and> rawAccessKey view = Some (nanoid16 rt)
           \<and> raw_route s' ident None (Some (nanoid16 rt)) hdr = Inl notFound"
proof -
  have sz: "int (byteLength (TextEncoder_encode [])) \<le> maxSize"
    using assms(1) by (simp add: byteLength_def TextEncoder_encode_def)
  from updateDocument_success [OF sz assms(2,4), of rt] obtain s' where
    u: "updateDocument maxSize rt ident [] tok s =
          (Inr (toView (updated_metadata rt [] md) (trimmed_token tok),
                \<lparr>metadata = new_version rt [], content = []\<rparr>), s')"
    and g: "getRecord s' ident = Some (updated_metadata rt [] md)"
    and b: "version_blobs s' (version_key ident (nanoid10 rt)) = Some []"
    by auto
  have tr: "truthy (ownerToken md)" using assms(3) by (rule trimmed_token_truthy)
  have k: "rawAccessKey (toView (updated_metadata rt [] md) (trimmed_token tok))
      = Some (nanoid16 rt)"
    using assms(3) tr by (simp add: toView_rawAccessKey updated_rawAccessKey)
  have new: "raw_route s' ident None (Some (nanoid16 rt)) hdr = Inl notFound"
    using raw_route_after_update(2) [OF g b assms(3) assms(5)] by simp
  from u k new show ?thesis by simp
qed

lemma rawkey2_nonempty: "nanoid16 rt2 \<noteq> []"
  by (simp add: rt2_def js_def)

text \<open>
  C3 at concrete inputs: the owner T1 updates the private document with the empty
  string and the new key is presented without a token header.
\<close>

theorem rawAccessKey_rotation_empty_content_witness:
  "\<exists>view ver s'.
      updateDocument 100 rt2 (nanoid12 rt1) [] (Some (js ''T1'')) private_doc_state
        = (Inr (view, ver), s')
      \<and> content ver = []
      \<and> rawAccessKey view = Some (nanoid16 rt2)
      \<and> raw_route s' (nanoid12 rt1) None (Some (nanoid16 rt2)) None = Inl notFound"
proof -
  have own: "trimmed_token (ownerToken (created_metadata rt1 (js ''a.md'') (js ''hello'')
      (Some (js ''T1'')))) \<noteq> None"
    by (simp add: trimmed_T1)
  have eq: "trimmed_token (Some (js ''T1'')) = trimmed_token (ownerToken
      (created_metadata rt1 (js ''a.md'') (js ''hello'') (Some (js ''T1''))))"
    by (simp add: trimmed_T1)
  have m: "(0::int) \<le> 100" by simp
  show ?thesis
    using rawAccessKey_rotation_empty_content [OF m private_doc_record own eq rawkey2_nonempty]
    by simp
qed

text \<open>
  The rotation at concrete inputs: after the owner's update with \<open>hello2\<close> the key of
  the creation is refused and the key of the update gets \<open>hello2\<close>.
\<close>

lemma rawAccessKey_rotation_example:
  "\<exists>view ver s'.
      updateDocument 100 rt2 (nanoid12 rt1) (js ''hello2'') (Some (js ''T1'')) private_doc_state
        = (Inr (view, ver), s')
      \<and> rawAccessKey view = Some (nanoid16 rt2)
      \<and> raw_route s' (nanoid12 rt1) None (Some (nanoid16 rt1)) None
          = Inl (forbidden ''owner token required'')
      \<and> raw_route s' (nanoid12 rt1) None (Some (nanoid16 rt2)) None = Inr (js ''hello2'')"
proof -
  let ?md = "created_metadata rt1 (js ''a.md'') (js ''hello'') (Some (js ''T1''))"
  have own: "trimmed_token (ownerToken ?md) \<noteq> None" by (simp add: trimmed_T1)
  have eq: "trimmed_token (Some (js ''T1'')) = trimmed_token (ownerToken ?md)"
    by (simp add: trimmed_T1)
  have sz: "int (byteLength (TextEncoder_encode (js ''hello2''))) \<le> 100"
    by (simp add: size_hello2)
  have old: "rawAccessKey ?md = Some (nanoid16 rt1)"
    by (simp add: created_rawAccessKey trimmed_T1)
  have "nanoid16 rt1 \<noteq> nanoid16 rt2" by (simp add: rt1_def rt2_def js_def)
  then have fresh: "rawAccessKey ?md \<noteq> Some (nanoid16 rt2)"
    by (simp add: old)
  have ne: "js ''hello2'' \<noteq> []" by (simp add: js_def)
  have anon: "None \<noteq> ownerToken ?md" by (simp add: trimmed_T1)
  show ?thesis
    using rawAccessKey_rotation [OF sz private_doc_record own eq rawkey2_nonempty fresh ne anon]
    unfolding old by blast
qed

section \<open>Share tokens: base64, comparison, verification (C8)\<close>

lemma mod3_Suc3: "Suc (Suc (Suc n)) mod 3 = n mod 3"
  by presburger

lemma mod4_Suc4: "Suc (Suc (Suc (Suc n))) mod 4 = n mod 4"
  by presburger

lemma b64_encode_body:
  "b64_encode bs = map b64_char (b64_body bs) @ replicate ((3 - length bs mod 3) mod 3) pad_char"
proof (induction bs rule: b64_encode.induct)
  case (4 a b c rest)
  have "length (a # b # c # rest) mod 3 = length rest mod 3"
    by (simp add: mod3_Suc3)
  with 4 show ?case by simp
qed (simp_all add: numeral_2_eq_2)

lemma length_b64_body:
  "length (b64_body bs) mod 4 = (case length bs mod 3 of 0 \<Rightarrow> 0 | Suc 0 \<Rightarrow> 2 | _ \<Rightarrow> 3)"
proof (induction bs rule: b64_body.induct)
  case (4 a b c rest)
  have "length (a # b # c # rest) mod 3 = length rest mod 3"
    by (simp add: mod3_Suc3)
  moreover have "length (b64_body (a # b # c # rest)) mod 4 = length (b64_body rest) mod 4"
    by (simp add: mod4_Suc4)
  ultimately show ?case using 4 by simp
qed simp_all

lemma distinct_b64_alphabet: "distinct b64_alphabet"
  by (simp add: b64_alphabet_def js_def)

lemma length_b64_alphabet: "length b64_alphabet = 64"
  by (simp add: b64_alphabet_def js_def)

lemma b64_index_nth:
  "distinct xs \<Longrightarrow> k < length xs \<Longrightarrow> b64_index xs (xs ! k) = Some k"
proof (induction xs arbitrary: k)
  case Nil
  then show ?case by simp
next
  case (Cons x xs)
  show ?case
  proof (cases k)
    case 0
    then show ?thesis by simp
  next
    case (Suc j)
    with Cons.prems have "j < length xs" "xs ! j \<noteq> x" by auto
    with Cons Suc show ?thesis by auto
  qed
qed

lemma b64_value_char: "b64_value (b64_char n) = Some (n mod 64)"
  by (simp add: b64_value_def b64_char_def b64_index_nth distinct_b64_alphabet
      length_b64_alphabet)

lemma b64_char_in_alphabet: "b64_char n \<in> set b64_alphabet"
  by (simp add: b64_char_def length_b64_alphabet)

lemma alphabet_no_ws_pad: "c \<in> set b64_alphabet \<Longrightarrow> \<not> is_ascii_ws c \<and> c \<noteq> pad_char"
  by (auto simp: b64_alphabet_def js_def is_ascii_ws_def pad_char_def)

lemma b64_char_props [simp]: "\<not> is_ascii_ws (b64_char n)" "b64_char n \<noteq> pad_char"
  "pad_char \<noteq> b64_char n"
  using alphabet_no_ws_pad [OF b64_char_in_alphabet [of n]] by auto

lemma pad_not_ws [simp]: "\<not> is_ascii_ws pad_char"
  by (simp add: is_ascii_ws_def pad_char_def)

lemma filter_ws_b64_encode:
  "filter (\<lambda>c. \<not> is_ascii_ws c) (b64_encode bs) = b64_encode bs"
  by (induction bs rule: b64_encode.induct) simp_all

lemma length_b64_encode: "length (b64_encode bs) mod 4 = 0"
proof (induction bs rule: b64_encode.induct)
  case (4 a b c rest)
  then show ?case by (simp add: mod4_Suc4)
qed simp_all

lemma drop_snoc2: "drop (length (ys @ [l, m]) - 2) (ys @ [l, m]) = [l, m]"
  by simp

lemma drop_snoc1: "drop (length (ys @ [m]) - 1) (ys @ [m]) = [m]"
  by simp

lemma strip_padding_append0:
  assumes "length cs mod 4 = 0" "cs = [] \<or> last cs \<noteq> pad_char"
  shows "strip_padding cs = cs"
proof (cases cs rule: rev_cases)
  case Nil
  then show ?thesis by (simp add: strip_padding_def)
next
  case (snoc ys l)
  with assms(2) have l: "l \<noteq> pad_char" by simp
  have one: "drop (length cs - 1) cs = [l]"
    unfolding snoc by (rule drop_snoc1)
  have two: "drop (length cs - 2) cs \<noteq> [pad_char, pad_char]"
  proof (cases ys rule: rev_cases)
    case Nil
    then show ?thesis using snoc by simp
  next
    case (snoc zs k)
    then have "cs = zs @ [k, l]" using \<open>cs = ys @ [l]\<close> by simp
    then have "drop (length cs - 2) cs = [k, l]" using drop_snoc2 [of zs k l] by simp
    then show ?thesis using l by simp
  qed
  show ?thesis using l one two by (simp add: strip_padding_def)
qed

lemma strip_padding_append1:
  assumes "length (cs @ [pad_char]) mod 4 = 0" "cs \<noteq> []" "last cs \<noteq> pad_char"
  shows "strip_padding (cs @ [pad_char]) = cs"
proof -
  from assms(2) obtain ys l where cs: "cs = ys @ [l]" by (cases cs rule: rev_cases) auto
  with assms(3) have l: "l \<noteq> pad_char" by simp
  have two: "drop (length (cs @ [pad_char]) - 2) (cs @ [pad_char]) = [l, pad_char]"
    using drop_snoc2 [of ys l pad_char] cs by simp
  have one: "drop (length (cs @ [pad_char]) - 1) (cs @ [pad_char]) = [pad_char]"
    by (rule drop_snoc1)
  have tk: "take (length (cs @ [pad_char]) - 1) (cs @ [pad_char]) = cs" by simp
  have len: "2 \<le> length (cs @ [pad_char])" "1 \<le> length (cs @ [pad_char])"
    using cs by simp_all
  show ?thesis
    unfolding strip_padding_def using assms(1) l len
    by (simp only: two one tk if_True if_False list.inject simp_thms)
qed

lemma strip_padding_append2:
  assumes "length (cs @ [pad_char, pad_char]) mod 4 = 0"
  shows "strip_padding (cs @ [pad_char, pad_char]) = cs"
proof -
  have two: "drop (length (cs @ [pad_char, pad_char]) - 2) (cs @ [pad_char, pad_char])
      = [pad_char, pad_char]"
    by (rule drop_snoc2)
  have tk: "take (length (cs @ [pad_char, pad_char]) - 2) (cs @ [pad_char, pad_char]) = cs"
    by simp
  have len: "2 \<le> length (cs @ [pad_char, pad_char])" by simp
  show ?thesis
    unfolding strip_padding_def using assms len
    by (simp only: two tk if_True simp_thms)
qed

lemma div_mult_add: "y < n \<Longrightarrow> (x * n + y) div n = (x::nat)"
  by simp

lemma mod_mult_add: "y < n \<Longrightarrow> (x * n + y) mod n = (y::nat)"
  by simp

lemma byte_div16: "b < 256 \<Longrightarrow> b div 16 < (16::nat)"
  by (rule less_mult_imp_div_less) simp

lemma byte_div64: "c < 256 \<Longrightarrow> c div 64 < (4::nat)"
  by (rule less_mult_imp_div_less) simp

lemma byte_div4: "a < 256 \<Longrightarrow> a div 4 < (64::nat)"
  by (rule less_mult_imp_div_less) simp

lemma sextet_bounds:
  "a < 256 \<Longrightarrow> a div 4 < (64::nat)"
  "b < 256 \<Longrightarrow> a mod 4 * 16 + b div 16 < (64::nat)"
  "c < 256 \<Longrightarrow> b mod 16 * 4 + c div 64 < (64::nat)"
  "a mod 4 * 16 < (64::nat)" "b mod 16 * 4 < (64::nat)" "c mod 64 < (64::nat)"
proof -
  have m4: "a mod 4 < 4" and m16: "b mod 16 < 16" by simp_all
  show "a < 256 \<Longrightarrow> a div 4 < 64" by (rule byte_div4)
  show "b < 256 \<Longrightarrow> a mod 4 * 16 + b div 16 < 64"
    using m4 byte_div16 [of b] by linarith
  show "c < 256 \<Longrightarrow> b mod 16 * 4 + c div 64 < 64"
    using m16 byte_div64 [of c] by linarith
  show "a mod 4 * 16 < 64" using m4 by linarith
  show "b mod 16 * 4 < 64" using m16 by linarith
  show "c mod 64 < 64" by simp
qed

lemma decode_byte1: "b < 256 \<Longrightarrow> a div 4 * 4 + (a mod 4 * 16 + b div 16) div 16 = (a::nat)"
  by (simp add: div_mult_add byte_div16)

lemma decode_byte2: "b < 256 \<Longrightarrow> c < 256 \<Longrightarrow>
    (a mod 4 * 16 + b div 16) mod 16 * 16 + (b mod 16 * 4 + c div 64) div 4 = (b::nat)"
  by (simp add: div_mult_add mod_mult_add byte_div16 byte_div64)

lemma decode_byte3: "c < 256 \<Longrightarrow> (b mod 16 * 4 + c div 64) mod 4 * 64 + c mod 64 = (c::nat)"
  by (simp add: mod_mult_add byte_div64)

lemma decode_byte1_padded: "a div 4 * 4 + (a mod 4 * 16) div 16 = (a::nat)"
  by simp

lemma decode_byte2_padded: "b < 256 \<Longrightarrow> (a mod 4 * 16 + b div 16) mod 16 * 16 + (b mod 16 * 4) div 4 = (b::nat)"
  by (simp add: mod_mult_add byte_div16)

lemma those_values_b64: "those_values (map b64_char ns) = Some (map (\<lambda>n. n mod 64) ns)"
  by (induction ns) (simp_all add: b64_value_char)

lemma b64_body_bound: "list_all (\<lambda>b. b < 256) bs \<Longrightarrow> list_all (\<lambda>n. n < 64) (b64_body bs)"
  by (induction bs rule: b64_body.induct) (simp_all add: sextet_bounds)

lemma map_mod_id: "list_all (\<lambda>n. n < 64) ns \<Longrightarrow> map (\<lambda>n. n mod 64) ns = (ns :: nat list)"
  by (induction ns) simp_all

lemma b64_decode_body: "list_all (\<lambda>b. b < 256) bs \<Longrightarrow> b64_decode (b64_body bs) = bs"
proof (induction bs rule: b64_body.induct)
  case 1
  then show ?case by simp
next
  case (2 a)
  show ?case unfolding b64_body.simps b64_decode.simps by (simp only: decode_byte1_padded)
next
  case (3 a b)
  then have b: "b < 256" by simp
  show ?case unfolding b64_body.simps b64_decode.simps
    by (simp only: decode_byte1 [OF b] decode_byte2_padded [OF b])
next
  case (4 a b c rest)
  then have b: "b < 256" and c: "c < 256" and r: "list_all (\<lambda>b. b < 256) rest" by simp_all
  have ih: "b64_decode (b64_body rest) = rest" using 4 r by simp
  show ?case unfolding b64_body.simps append_Cons append_Nil b64_decode.simps
    by (simp only: decode_byte1 [OF b] decode_byte2 [OF b c] decode_byte3 [OF c] ih append_Cons append_Nil)
qed

lemma b64_body_last:
  "bs \<noteq> [] \<Longrightarrow> map b64_char (b64_body bs) \<noteq> []
      \<and> last (map b64_char (b64_body bs)) \<noteq> pad_char"
proof (induction bs rule: b64_body.induct)
  case (4 a b c rest)
  then show ?case by (cases "rest = []") (simp_all add: last_append)
qed simp_all

lemma strip_padding_b64_encode:
  "strip_padding (b64_encode bs) = map b64_char (b64_body bs)"
proof (cases "bs = []")
  case True
  then show ?thesis by (simp add: strip_padding_def)
next
  case False
  note last = b64_body_last [OF False]
  have len: "length (map b64_char (b64_body bs) @ replicate ((3 - length bs mod 3) mod 3) pad_char)
      mod 4 = 0"
    using length_b64_encode [of bs] by (simp only: b64_encode_body)
  have "length bs mod 3 = 0 \<or> length bs mod 3 = 1 \<or> length bs mod 3 = 2" by arith
  then show ?thesis
  proof (elim disjE)
    assume m: "length bs mod 3 = 0"
    then show ?thesis using len last
      by (simp add: b64_encode_body strip_padding_append0)
  next
    assume m: "length bs mod 3 = 1"
    then have r: "replicate ((3 - length bs mod 3) mod 3) pad_char = [pad_char, pad_char]"
      by (simp add: numeral_2_eq_2)
    show ?thesis using len unfolding b64_encode_body r
      by (rule strip_padding_append2)
  next
    assume m: "length bs mod 3 = 2"
    then have r: "replicate ((3 - length bs mod 3) mod 3) pad_char = [pad_char]"
      by simp
    show ?thesis using len last unfolding b64_encode_body r
      by (simp add: strip_padding_append1)
  qed
qed

lemma length_b64_body_not1: "length (b64_body bs) mod 4 \<noteq> 1"
  using length_b64_body [of bs] by (auto split: nat.splits)

lemma map_of_nat_unat: "map (of_nat \<circ> unat) s = (s :: 16 word list)"
  by (induction s) simp_all

lemma unat_byte: "list_all (\<lambda>c. c \<le> 0xFF) s \<Longrightarrow> list_all (\<lambda>b. b < 256) (map unat (s :: 16 word list))"
proof (induction s)
  case Nil
  then show ?case by simp
next
  case (Cons c s)
  then have "c \<le> 0xFF" by simp
  then have "unat c \<le> unat (0xFF :: 16 word)" by (simp only: word_le_nat_alt)
  then have "unat c < 256" by simp
  with Cons show ?case by simp
qed

text \<open>\<open>atob\<close> gives back what \<open>btoa\<close> was given.\<close>

lemma atob_btoa: "btoa s = Some t \<Longrightarrow> atob t = Some s"
proof -
  assume a: "btoa s = Some t"
  then have l1: "list_all (\<lambda>c. c \<le> 0xFF) s" and t: "t = b64_encode (map unat s)"
    by (auto simp: btoa_def split: if_splits)
  have bytes: "list_all (\<lambda>b. b < 256) (map unat s)" using l1 by (rule unat_byte)
  have d: "strip_padding (filter (\<lambda>c. \<not> is_ascii_ws c) t) = map b64_char (b64_body (map unat s))"
    by (simp add: t filter_ws_b64_encode strip_padding_b64_encode)
  have v: "those_values (map b64_char (b64_body (map unat s))) = Some (b64_body (map unat s))"
    by (simp add: those_values_b64 map_mod_id b64_body_bound bytes)
  show ?thesis
    unfolding atob_def d Let_def
    using length_b64_body_not1 [of "map unat s"] v bytes
    by (simp add: b64_decode_body map_of_nat_unat)
qed

declare digits_of.simps [simp del]

lemma split_on_nonempty [simp]: "split_on sep cs \<noteq> []"
  by (induction cs) (auto split: list.splits)

lemma split_on_no_sep: "sep \<notin> set xs \<Longrightarrow> split_on sep xs = [xs]"
  by (induction xs) auto

lemma split_on_prefix:
  "sep \<notin> set xs \<Longrightarrow> split_on sep (xs @ sep # rest) = xs # split_on sep rest"
  by (induction xs) (auto split: list.splits)

lemma or_xor_loop_mono: "r \<noteq> 0 \<Longrightarrow> or_xor_loop r a b \<noteq> 0"
proof (induction r a b rule: or_xor_loop.induct)
  case (1 result b)
  then show ?case by simp
next
  case (2 result x a)
  then have "result OR (ucast x XOR 0) \<noteq> 0" by (simp add: or_eq_0_iff)
  with 2 show ?case by simp
next
  case (3 result x a y b)
  then have "result OR (ucast x XOR ucast y) \<noteq> 0" by (simp add: or_eq_0_iff)
  with 3 show ?case by simp
qed

lemma ucast_xor_zero: "((ucast (x :: 16 word) :: 32 word) XOR ucast (y :: 16 word) = 0) = (x = y)"
proof
  assume "(ucast x :: 32 word) XOR ucast y = 0"
  then have e: "(ucast x :: 32 word) = ucast y"
    by (metis bit.xor_left_self xor.right_neutral)
  have up: "is_up (ucast :: 16 word \<Rightarrow> 32 word)" by (simp add: is_up)
  have "x = (ucast (ucast x :: 32 word) :: 16 word)"
    using ucast_up_ucast_id [OF up, of x] by simp
  also have "\<dots> = (ucast (ucast y :: 32 word) :: 16 word)" by (simp only: e)
  also have "\<dots> = y" using ucast_up_ucast_id [OF up, of y] by simp
  finally show "x = y" .
next
  assume "x = y"
  then show "(ucast x :: 32 word) XOR ucast y = 0" by simp
qed

lemma or_xor_loop_eq:
  "length a = length b \<Longrightarrow> (or_xor_loop 0 a b = 0) = (a = b)"
proof (induction a arbitrary: b)
  case Nil
  then show ?case by simp
next
  case (Cons x a)
  then obtain y b' where b: "b = y # b'" by (cases b) auto
  show ?case
  proof (cases "x = y")
    case True
    with Cons b show ?thesis by simp
  next
    case False
    then have "(ucast x :: 32 word) XOR ucast y \<noteq> 0" by (simp add: ucast_xor_zero)
    then have "or_xor_loop (0 OR (ucast x XOR ucast y)) a b' \<noteq> 0"
      by (intro or_xor_loop_mono) simp
    with False b show ?thesis by simp
  qed
qed

text \<open>\<open>timingSafeEqual\<close> decides equality of the two strings.\<close>

lemma timingSafeEqual_iff: "timingSafeEqual a b = (a = b)"
  by (cases "length a = length b") (auto simp: timingSafeEqual_def or_xor_loop_eq)

lemma hex_digit_in: "hex_digit n \<in> set hex_digits"
proof -
  have len: "n mod 16 < length ''0123456789abcdef''" by simp
  have "map of_char ''0123456789abcdef'' ! (n mod 16)
      = (of_char (''0123456789abcdef'' ! (n mod 16)) :: 16 word)"
    using len by (rule nth_map)
  then have e: "hex_digit n = hex_digits ! (n mod 16)"
    by (simp only: hex_digit_def hex_digits_def js_def)
  have "n mod 16 < length hex_digits" by (simp add: hex_digits_def js_def)
  then have "hex_digits ! (n mod 16) \<in> set hex_digits" by (rule nth_mem)
  then show ?thesis by (simp only: e)
qed

lemma hex_digits_props:
  "c \<in> set hex_digits \<Longrightarrow> c \<noteq> 0x2E \<and> c \<noteq> 0x22 \<and> c \<le> 0xFF"
  by (auto simp: hex_digits_def js_def)

lemma hex_of_bytes_chars: "c \<in> set (hex_of_bytes bs) \<Longrightarrow> c \<in> set hex_digits"
  by (induction bs) (auto simp: hex_of_bytes_def hex2_def hex_digit_in)

lemma hex_of_bytes_nonempty: "bs \<noteq> [] \<Longrightarrow> hex_of_bytes bs \<noteq> []"
  by (cases bs) (simp_all add: hex_of_bytes_def hex2_def)

lemma sign_chars: "c \<in> set (sign art data secret) \<Longrightarrow> c \<noteq> 0x2E \<and> c \<noteq> 0x22 \<and> c \<le> 0xFF"
  using hex_digits_props [OF hex_of_bytes_chars] by (simp add: sign_def)

lemma digit_props: "d < 10 \<Longrightarrow> (0x30 + of_nat d :: 16 word) \<noteq> 0x2E \<and> (0x30 + of_nat d :: 16 word) \<le> 0xFF"
proof -
  assume "d < 10"
  then have "d \<in> {0, 1, 2, 3, 4, 5, 6, 7, 8, 9}" by auto
  then show ?thesis by auto
qed

lemma digits_of_chars: "c \<in> set (digits_of n) \<Longrightarrow> c \<noteq> 0x2E \<and> c \<le> 0xFF"
proof (induction n rule: digits_of.induct)
  case (1 n)
  show ?case
  proof (cases "n < 10")
    case True
    with 1(2) digit_props [of n] show ?thesis by (simp add: digits_of.simps [of n])
  next
    case False
    have "n mod 10 < 10" by simp
    with 1 False digit_props [of "n mod 10"] show ?thesis
      by (auto simp: digits_of.simps [of n])
  qed
qed

lemma number_to_string_chars: "c \<in> set (number_to_string n) \<Longrightarrow> c \<noteq> 0x2E \<and> c \<le> 0xFF"
  using digits_of_chars by (auto simp: number_to_string_def split: if_splits)

text \<open>
  What a successful verification tells: the token decodes, its first part is not empty
  and is signed by its second part under the secret, it parses to the payload, and the
  payload has not expired. So a token that does not decode, or has fewer than two
  non-empty parts, or whose signature does not match, or whose data does not parse, or
  that has expired, gives no payload.
\<close>

lemma verifyShareToken_Some:
  assumes "verifyShareToken art token secret = Some payload"
  shows "\<exists>decoded data signature rest.
           atob token = Some decoded \<and> split_on 0x2E decoded = data # signature # rest
           \<and> data \<noteq> [] \<and> signature \<noteq> [] \<and> signature = sign art data secret
           \<and> JSON_parse art data = Some payload \<and> date_now art \<le> expiresAt payload"
  using assms
  by (auto simp: verifyShareToken_def Let_def timingSafeEqual_iff
      split: option.splits list.splits if_splits)

lemma verifyShareToken_parts:
  assumes "atob token = Some decoded" "split_on 0x2E decoded = data # signature # rest"
    "data \<noteq> []" "signature \<noteq> []"
  shows "verifyShareToken art token secret =
           (if signature \<noteq> sign art data secret then None
            else (case JSON_parse art data of
                    None \<Rightarrow> None
                  | Some payload \<Rightarrow>
                      if expiresAt payload < date_now art then None else Some payload))"
  using assms by (simp add: verifyShareToken_def Let_def timingSafeEqual_iff)

text \<open>
  The round trip, for a payload whose JSON text has no dot and no code unit above 0xFF,
  with an HMAC that is not empty and a \<open>JSON.parse\<close> that reads the text back: the
  payload comes back unless it has expired.
\<close>

lemma share_token_roundtrip:
  assumes nodot: "0x2E \<notin> set (JSON_stringify payload)"
    and latin: "list_all (\<lambda>c. c \<le> 0xFF) (JSON_stringify payload)"
    and mac: "hmac_sha256 art (TextEncoder_encode secret)
                (TextEncoder_encode (JSON_stringify payload)) \<noteq> []"
    and parse: "JSON_parse art (JSON_stringify payload) = Some payload"
  shows "\<exists>token. createShareToken art payload secret = Some token
           \<and> verifyShareToken art token secret =
               (if expiresAt payload < date_now art then None else Some payload)"
proof -
  let ?data = "JSON_stringify payload"
  let ?sig = "sign art ?data secret"
  have l: "list_all (\<lambda>c. c \<le> 0xFF) (?data @ js ''.'' @ ?sig)"
    using latin sign_chars [of _ art ?data secret]
    by (auto simp: list_all_iff js_def)
  then obtain token where t: "btoa (?data @ js ''.'' @ ?sig) = Some token"
    by (simp add: btoa_def)
  have c: "createShareToken art payload secret = Some token"
    using t by (simp add: createShareToken_def Let_def)
  have d: "atob token = Some (?data @ js ''.'' @ ?sig)" using t by (rule atob_btoa)
  have nd: "0x2E \<notin> set ?sig" using sign_chars [of "0x2E" art ?data secret] by auto
  have sp: "split_on 0x2E (?data @ js ''.'' @ ?sig) = ?data # ?sig # []"
    using split_on_prefix [OF nodot, of ?sig] split_on_no_sep [OF nd] by (simp add: js_def)
  have ne: "?data \<noteq> []" by (simp add: JSON_stringify_def js_def)
  have ns: "?sig \<noteq> []" using mac by (simp add: sign_def hex_of_bytes_nonempty)
  from verifyShareToken_parts [OF d sp ne ns, of art secret] parse c show ?thesis by simp
qed

lemma stringify_dotted:
  "JSON_stringify \<lparr>documentId = js ''a.b'', expiresAt = n\<rparr> =
     ([0x7B, 0x22] @ js ''documentId'' @ [0x22, 0x3A, 0x22, 0x61]) @ 0x2E #
     ([0x62, 0x22, 0x2C, 0x22] @ js ''expiresAt'' @ [0x22, 0x3A] @ number_to_string n @ [0x7D])"
  by (simp add: JSON_stringify_def json_quote_def escape_unit_def is_lead_surrogate_def
      is_trail_surrogate_def js_def)

text \<open>
  C8 fails on the code for a payload whose \<open>documentId\<close> holds a dot, here \<open>a.b\<close>, with
  any expiry, secret and runtime: the token is issued, and \<open>verifyShareToken\<close> splits the
  decoded text at the dot inside the JSON text, takes the rest of the JSON text for the
  signature and returns nothing, also when the expiry lies in the future.
\<close>

theorem share_token_dotted_id:
  "\<exists>token. createShareToken art \<lparr>documentId = js ''a.b'', expiresAt = n\<rparr> secret = Some token
      \<and> verifyShareToken art token secret = None"
proof -
  let ?p = "\<lparr>documentId = js ''a.b'', expiresAt = n\<rparr>"
  let ?A = "[0x7B, 0x22] @ js ''documentId'' @ [0x22, 0x3A, 0x22, 0x61] :: jsstring"
  let ?B = "[0x62, 0x22, 0x2C, 0x22] @ js ''expiresAt'' @ [0x22, 0x3A] @ number_to_string n
              @ [0x7D] :: jsstring"
  let ?sig = "sign art (JSON_stringify ?p) secret"
  have data: "JSON_stringify ?p = ?A @ 0x2E # ?B" by (rule stringify_dotted)
  have latinA: "list_all (\<lambda>c. c \<le> 0xFF) ?A" by (simp add: js_def)
  have latinB: "list_all (\<lambda>c. c \<le> 0xFF) ?B"
    using number_to_string_chars [of _ n] by (auto simp: list_all_iff js_def)
  have latinS: "list_all (\<lambda>c. c \<le> 0xFF) ?sig"
    using sign_chars [of _ art "JSON_stringify ?p" secret] by (auto simp: list_all_iff)
  have latinD: "list_all (\<lambda>c. c \<le> 0xFF) (JSON_stringify ?p)"
    using latinA latinB by (simp only: data list_all_append list.pred_inject) simp
  have "list_all (\<lambda>c. c \<le> 0xFF) (JSON_stringify ?p @ js ''.'' @ ?sig)"
    using latinD latinS by (simp add: js_def)
  then obtain token where t: "btoa (JSON_stringify ?p @ js ''.'' @ ?sig) = Some token"
    by (simp add: btoa_def)
  have c: "createShareToken art ?p secret = Some token"
    using t by (simp add: createShareToken_def Let_def)
  have "JSON_stringify ?p @ js ''.'' @ ?sig = ?A @ 0x2E # ?B @ 0x2E # ?sig"
    by (simp only: data) (simp add: js_def)
  then have d: "atob token = Some (?A @ 0x2E # ?B @ 0x2E # ?sig)"
    using atob_btoa [OF t] by (simp only:)
  have ndA: "0x2E \<notin> set ?A" by (simp add: js_def)
  have ndB: "0x2E \<notin> set ?B"
    using number_to_string_chars [of "0x2E" n] by (auto simp: js_def)
  have sp: "split_on 0x2E (?A @ 0x2E # ?B @ 0x2E # ?sig) = ?A # ?B # split_on 0x2E ?sig"
    using split_on_prefix [OF ndA, of "?B @ 0x2E # ?sig"] split_on_prefix [OF ndB, of ?sig]
    by simp
  have neA: "?A \<noteq> []" and neB: "?B \<noteq> []" by simp_all
  have q: "0x22 \<in> set ?B" by simp
  have "?B \<noteq> sign art ?A secret"
  proof
    assume e: "?B = sign art ?A secret"
    have "0x22 \<in> set (sign art ?A secret)" by (subst e [symmetric]) (rule q)
    with sign_chars [of "0x22" art ?A secret] show False by simp
  qed
  with verifyShareToken_parts [OF d sp neA neB, of art secret]
  have "verifyShareToken art token secret = None" by simp
  with c show ?thesis by blast
qed

text \<open>
  C8 at concrete inputs: the expiry 2000 with the clock at 1000, the secret the share
  route falls back to.
\<close>

theorem share_token_dotted_id_witness:
  "\<exists>token. createShareToken example_art \<lparr>documentId = js ''a.b'', expiresAt = 2000\<rparr>
                (js ''default-secret'') = Some token
      \<and> verifyShareToken example_art token (js ''default-secret'') = None
      \<and> date_now example_art < 2000"
  using share_token_dotted_id [of example_art 2000 "js ''default-secret''"]
  by (simp add: example_art_def)

lemma number_2000: "number_to_string 2000 = js ''2000''"
proof -
  have "digits_of 2000 = digits_of 200 @ [0x30]" by (subst digits_of.simps) simp
  also have "digits_of 200 = digits_of 20 @ [0x30]" by (subst digits_of.simps) simp
  also have "digits_of 20 = digits_of 2 @ [0x30]" by (subst digits_of.simps) simp
  also have "digits_of 2 = [0x32]" by (subst digits_of.simps) simp
  finally show ?thesis by (simp add: number_to_string_def js_def)
qed

lemma example_payload_text: "JSON_stringify example_payload =
      [0x7B, 0x22] @ js ''documentId'' @ [0x22, 0x3A, 0x22] @ js ''V1StGXR8_Z5j''
        @ [0x22, 0x2C, 0x22] @ js ''expiresAt'' @ [0x22, 0x3A] @ js ''2000'' @ [0x7D]"
  by (simp add: JSON_stringify_def example_payload_def json_quote_def escape_unit_def
        is_lead_surrogate_def is_trail_surrogate_def number_2000 js_def)

text \<open>The round trip at concrete inputs.\<close>

lemma share_token_roundtrip_example:
  "\<exists>token. createShareToken example_art example_payload (js ''default-secret'') = Some token
      \<and> verifyShareToken example_art token (js ''default-secret'') = Some example_payload"
proof -
  have nodot: "0x2E \<notin> set (JSON_stringify example_payload)"
    unfolding example_payload_text by (simp add: js_def)
  have latin: "list_all (\<lambda>c. c \<le> 0xFF) (JSON_stringify example_payload)"
    unfolding example_payload_text by (simp add: js_def)
  have mac: "hmac_sha256 example_art (TextEncoder_encode (js ''default-secret''))
                (TextEncoder_encode (JSON_stringify example_payload)) \<noteq> []"
    by (simp add: example_art_def)
  have parse: "JSON_parse example_art (JSON_stringify example_payload) = Some example_payload"
    by (simp add: example_art_def)
  have e: "\<not> expiresAt example_payload < date_now example_art"
    by (simp add: example_art_def example_payload_def)
  from share_token_roundtrip [OF nodot latin mac parse] e show ?thesis by simp
qed

end
